theory Spec2Isabelle
  imports Main "HOL-Library.AList" "HOL-Library.Word"
begin

text \<open>
  The anchor registry, the extraction and completion engine and the response monitor of
  the Claude Desktop bridge, as functions of their inputs and of what they read from
  their environment (the clock, the random source, the page behind the debugging
  connection), followed by the properties of them that hold and those that do not.
\<close>

section \<open>JavaScript strings, numbers and regular expressions\<close>

text \<open>
  Strings are lists of characters, one per code unit; \<open>length\<close> is the \<open>.length\<close> of
  the source. Times are the integers \<open>Date.now()\<close> returns (milliseconds).
\<close>

text \<open>\<open>String.prototype.includes\<close>.\<close>

fun str_includes :: "string \<Rightarrow> string \<Rightarrow> bool" where
  "str_includes [] sub = (sub = [])"
| "str_includes (c # cs) sub = (take (length sub) (c # cs) = sub \<or> str_includes cs sub)"

text \<open>\<open>String.prototype.substring(a, b)\<close> for \<open>a \<le> b\<close>; indices beyond the end are clamped.\<close>

definition substring :: "nat \<Rightarrow> nat \<Rightarrow> string \<Rightarrow> string" where
  "substring a b s = take (b - a) (drop a s)"

definition isDigit :: "char \<Rightarrow> bool" where
  "isDigit c = (48 \<le> (of_char c :: nat) \<and> (of_char c :: nat) \<le> 57)"

definition digit_char :: "nat \<Rightarrow> char" where
  "digit_char d = char_of (48 + d)"

definition digit_val :: "char \<Rightarrow> nat" where
  "digit_val c = of_char c - 48"

text \<open>\<open>Number.prototype.toString()\<close> on an integer: its decimal digits, with a sign.\<close>

function show_digits :: "int \<Rightarrow> string" where
  "show_digits n =
     (if n < 10 then [digit_char (nat n)]
      else show_digits (n div 10) @ [digit_char (nat (n mod 10))])"
  by pat_completeness auto
termination
  by (relation "measure nat") auto

definition toString :: "int \<Rightarrow> string" where
  "toString i = (if i < 0 then CHR ''-'' # show_digits (- i) else show_digits i)"

text \<open>
  \<open>parseInt\<close> on the text of a \<open>\d+\<close> group: the value of the leading decimal digits,
  \<open>None\<close> (NaN) when there is none.
\<close>

definition parseInt :: "string \<Rightarrow> int option" where
  "parseInt s =
     (case takeWhile isDigit s of
        [] \<Rightarrow> None
      | d # ds \<Rightarrow> Some (foldl (\<lambda>acc c. 10 * acc + int (digit_val c)) 0 (d # ds)))"

text \<open>
  Regular expressions, as far as the source's literals use them. \<open>rx_rems r s\<close> lists
  what is left of \<open>s\<close> after each way of matching \<open>r\<close> at its start, in the order a
  backtracking matcher tries them: quantifiers are greedy, and an iteration of \<open>*\<close> that
  consumes nothing is not repeated.
\<close>

datatype cls = Digit | LowerNum | Alnum | Word | WordDash | Space

fun in_cls :: "cls \<Rightarrow> char \<Rightarrow> bool" where
  "in_cls Digit c = isDigit c"
| "in_cls LowerNum c = (c \<in> set ''abcdefghijklmnopqrstuvwxyz0123456789'')"
| "in_cls Alnum c =
     (c \<in> set ''abcdefghijklmnopqrstuvwxyzABCDEFGHIJKLMNOPQRSTUVWXYZ0123456789'')"
| "in_cls Word c =
     (c \<in> set ''abcdefghijklmnopqrstuvwxyzABCDEFGHIJKLMNOPQRSTUVWXYZ0123456789_'')"
| "in_cls WordDash c =
     (c \<in> set ''abcdefghijklmnopqrstuvwxyzABCDEFGHIJKLMNOPQRSTUVWXYZ0123456789_-'')"
| "in_cls Space c =
     (c \<in> set [CHR '' '', CHR 0x09, CHR 0x0A, CHR 0x0B, CHR 0x0C, CHR 0x0D, CHR 0xA0])"

datatype rx = Eps | Chr char | Cls cls | Seq rx rx | Opt rx | Star rx

function rx_rems :: "rx \<Rightarrow> string \<Rightarrow> string list" where
  "rx_rems Eps s = [s]"
| "rx_rems (Chr c) s = (case s of [] \<Rightarrow> [] | d # t \<Rightarrow> if d = c then [t] else [])"
| "rx_rems (Cls k) s = (case s of [] \<Rightarrow> [] | d # t \<Rightarrow> if in_cls k d then [t] else [])"
| "rx_rems (Seq a b) s = concat (map (rx_rems b) (rx_rems a s))"
| "rx_rems (Opt a) s = rx_rems a s @ [s]"
| "rx_rems (Star a) s =
     concat (map (\<lambda>t. if length t < length s then rx_rems (Star a) t else []) (rx_rems a s))
       @ [s]"
  by pat_completeness auto
termination
  by (relation "measures [\<lambda>(r, s). size r, \<lambda>(r, s). length s]") auto

text \<open>A literal word, \<open>r+\<close>, \<open>r{n}\<close> and a sequence of parts.\<close>

fun lit :: "string \<Rightarrow> rx" where
  "lit [] = Eps"
| "lit (c # cs) = Seq (Chr c) (lit cs)"

definition Plus :: "rx \<Rightarrow> rx" where
  "Plus r = Seq r (Star r)"

fun Rep :: "nat \<Rightarrow> rx \<Rightarrow> rx" where
  "Rep 0 r = Eps"
| "Rep (Suc n) r = Seq r (Rep n r)"

fun seqs :: "rx list \<Rightarrow> rx" where
  "seqs [] = Eps"
| "seqs (r # rs) = Seq r (seqs rs)"

text \<open>\<open>/^r$/.test(s)\<close>: some way of matching \<open>r\<close> consumes all of \<open>s\<close>.\<close>

definition rx_test_anchored :: "rx \<Rightarrow> string \<Rightarrow> bool" where
  "rx_test_anchored r s = ([] \<in> set (rx_rems r s))"

text \<open>\<open>/r/.test(s)\<close> and a non-null \<open>/r/g.exec(s)\<close>: \<open>r\<close> matches at some position.\<close>

fun rx_test :: "rx \<Rightarrow> string \<Rightarrow> bool" where
  "rx_test r [] = (case rx_rems r [] of [] \<Rightarrow> False | _ # _ \<Rightarrow> True)"
| "rx_test r (c # cs) = (case rx_rems r (c # cs) of [] \<Rightarrow> rx_test r cs | _ # _ \<Rightarrow> True)"

text \<open>
  \<open>s.match(/pre(grp)post/)[1]\<close>: the text of the group in the first match, at the
  leftmost position that has one; \<open>None\<close> when \<open>match\<close> returns null.
\<close>

definition rx_group_at :: "rx \<Rightarrow> rx \<Rightarrow> rx \<Rightarrow> string \<Rightarrow> string option" where
  "rx_group_at pre grp post s =
     (case concat (map (\<lambda>rest1. concat (map (\<lambda>rest2. case rx_rems post rest2 of
                                                    [] \<Rightarrow> []
                                                  | _ # _ \<Rightarrow> [take (length rest1 - length rest2) rest1])
                                         (rx_rems grp rest1)))
                       (rx_rems pre s)) of
        [] \<Rightarrow> None
      | g # _ \<Rightarrow> Some g)"

fun rx_group :: "rx \<Rightarrow> rx \<Rightarrow> rx \<Rightarrow> string \<Rightarrow> string option" where
  "rx_group pre grp post [] = rx_group_at pre grp post []"
| "rx_group pre grp post (c # cs) =
     (case rx_group_at pre grp post (c # cs) of
        Some g \<Rightarrow> Some g
      | None \<Rightarrow> rx_group pre grp post cs)"

section \<open>AnchorService (state-monitor-manager.js)\<close>

datatype jsval = JNull | JNum int | JStr string | JBool bool

text \<open>The metadata object the service keeps per anchor.\<close>

record tracking_data =
  anchor :: string
  createdAt :: int
  status :: string
  contextId :: jsval
  injectionResult :: jsval
  extractionResult :: jsval
  lastActivity :: int
  extra :: "(string \<times> jsval) list"

text \<open>
  An object spread into a tracking record (\<open>...metadata\<close>, \<open>...updates\<close>): each field it
  carries replaces the record's, other keys are added.
\<close>

record fields =
  f_anchor :: "string option"
  f_createdAt :: "int option"
  f_status :: "string option"
  f_contextId :: "jsval option"
  f_injectionResult :: "jsval option"
  f_extractionResult :: "jsval option"
  f_lastActivity :: "int option"
  f_extra :: "(string \<times> jsval) list"

definition no_fields :: fields where
  "no_fields = \<lparr>f_anchor = None, f_createdAt = None, f_status = None, f_contextId = None,
     f_injectionResult = None, f_extractionResult = None, f_lastActivity = None,
     f_extra = []\<rparr>"

definition spread :: "fields \<Rightarrow> tracking_data \<Rightarrow> tracking_data" where
  "spread f td =
     \<lparr>anchor = (case f_anchor f of None \<Rightarrow> anchor td | Some v \<Rightarrow> v),
      createdAt = (case f_createdAt f of None \<Rightarrow> createdAt td | Some v \<Rightarrow> v),
      status = (case f_status f of None \<Rightarrow> status td | Some v \<Rightarrow> v),
      contextId = (case f_contextId f of None \<Rightarrow> contextId td | Some v \<Rightarrow> v),
      injectionResult = (case f_injectionResult f of None \<Rightarrow> injectionResult td | Some v \<Rightarrow> v),
      extractionResult =
        (case f_extractionResult f of None \<Rightarrow> extractionResult td | Some v \<Rightarrow> v),
      lastActivity = (case f_lastActivity f of None \<Rightarrow> lastActivity td | Some v \<Rightarrow> v),
      extra = foldl (\<lambda>e (k, v). AList.update k v e) (extra td) (f_extra f)\<rparr>"

record statistics =
  totalGenerated :: nat
  totalTracked :: nat
  totalCleaned :: nat
  oldestAnchor :: "string option"
  newestAnchor :: "string option"

text \<open>
  The service: \<open>anchors\<close> is the \<open>Map\<close> from anchor to metadata, in insertion order
  (\<open>AList.update\<close> is \<open>Map.set\<close>, \<open>AList.delete\<close> is \<open>Map.delete\<close>, \<open>map_of\<close> is
  \<open>Map.get\<close>).
\<close>

record anchor_service =
  maxAgeHours :: int
  anchors :: "(string \<times> tracking_data) list"
  stats :: statistics

definition new_AnchorService :: anchor_service where
  "new_AnchorService =
     \<lparr>maxAgeHours = 24, anchors = [],
      stats = \<lparr>totalGenerated = 0, totalTracked = 0, totalCleaned = 0,
               oldestAnchor = None, newestAnchor = None\<rparr>\<rparr>"

text \<open>\<open>anchor.match(/msg_(\d+)_/)\<close>, then \<open>parseInt\<close> of the group, or null.\<close>

definition extractTimestamp :: "string \<Rightarrow> int option" where
  "extractTimestamp a =
     (case rx_group (lit ''msg_'') (Plus (Cls Digit)) (Chr CHR ''_'') a of
        Some ds \<Rightarrow> parseInt ds
      | None \<Rightarrow> None)"

text \<open>
  A number where the source compares one: null counts as 0.
\<close>

definition num :: "int option \<Rightarrow> int" where
  "num v = (case v of None \<Rightarrow> 0 | Some n \<Rightarrow> n)"

definition falsy_str :: "string option \<Rightarrow> bool" where
  "falsy_str v = (case v of None \<Rightarrow> True | Some s \<Rightarrow> s = [])"

definition updateStatistics :: "string \<Rightarrow> statistics \<Rightarrow> statistics" where
  "updateStatistics a st =
     (let timestamp = extractTimestamp a;
          st1 = (if falsy_str (oldestAnchor st)
                    \<or> num timestamp < num (extractTimestamp (the (oldestAnchor st)))
                 then st\<lparr>oldestAnchor := Some a\<rparr> else st)
      in if falsy_str (newestAnchor st1)
            \<or> num timestamp > num (extractTimestamp (the (newestAnchor st1)))
         then st1\<lparr>newestAnchor := Some a\<rparr> else st1)"

text \<open>
  \<open>generateAnchor\<close>, with the two readings it takes from its environment as
  arguments: \<open>now\<close> is \<open>Date.now()\<close> and \<open>r36\<close> is \<open>Math.random().toString(36)\<close>
  (\<open>0\<close> for zero, otherwise \<open>0.\<close> followed by base-36 digits).
\<close>

definition generateAnchor :: "int \<Rightarrow> string \<Rightarrow> anchor_service \<Rightarrow> string \<times> anchor_service" where
  "generateAnchor now r36 s =
     (let timestamp = now;
          randomId = substring 2 8 r36;
          a = ''msg_'' @ toString timestamp @ ''_'' @ randomId;
          st = (stats s)\<lparr>totalGenerated := totalGenerated (stats s) + 1\<rparr>
      in (a, s\<lparr>stats := updateStatistics a st\<rparr>))"

text \<open>
  \<open>trackAnchor\<close>; \<open>now1\<close> and \<open>now2\<close> are its two readings of \<open>Date.now()\<close>, for
  \<open>createdAt\<close> and \<open>lastActivity\<close>.
\<close>

definition trackAnchor ::
  "string \<Rightarrow> fields \<Rightarrow> int \<Rightarrow> int \<Rightarrow> anchor_service \<Rightarrow> tracking_data \<times> anchor_service" where
  "trackAnchor a metadata now1 now2 s =
     (let trackingData =
            spread metadata
              \<lparr>anchor = a, createdAt = now1, status = ''created'', contextId = JNull,
               injectionResult = JNull, extractionResult = JNull, lastActivity = now2,
               extra = []\<rparr>
      in (trackingData,
          s\<lparr>anchors := AList.update a trackingData (anchors s),
            stats := (stats s)\<lparr>totalTracked := totalTracked (stats s) + 1\<rparr>\<rparr>))"

definition updateAnchor ::
  "string \<Rightarrow> fields \<Rightarrow> int \<Rightarrow> anchor_service \<Rightarrow> tracking_data option \<times> anchor_service" where
  "updateAnchor a updates now s =
     (case map_of (anchors s) a of
        None \<Rightarrow> (None, s)
      | Some existing \<Rightarrow>
          (let updated = (spread updates existing)\<lparr>lastActivity := now\<rparr>
           in (Some updated, s\<lparr>anchors := AList.update a updated (anchors s)\<rparr>)))"

definition getAnchor :: "string \<Rightarrow> anchor_service \<Rightarrow> tracking_data option" where
  "getAnchor a s = map_of (anchors s) a"

text \<open>The two formats of \<open>isValidAnchor\<close>, \<open>/^msg_\d{13}_[a-z0-9]{6}$/\<close> and
  \<open>/^msg_\d{13}_[a-zA-Z0-9]+$/\<close>.\<close>

definition newFormat :: rx where
  "newFormat = seqs [lit ''msg_'', Rep 13 (Cls Digit), Chr CHR ''_'', Rep 6 (Cls LowerNum)]"

definition legacyFormat :: rx where
  "legacyFormat = seqs [lit ''msg_'', Rep 13 (Cls Digit), Chr CHR ''_'', Plus (Cls Alnum)]"

definition isValidAnchor :: "string \<Rightarrow> bool" where
  "isValidAnchor a = (rx_test_anchored newFormat a \<or> rx_test_anchored legacyFormat a)"

text \<open>
  \<open>cleanupOldAnchors\<close>: the loop runs over the entries of the map and deletes from the
  map as it goes; \<open>now\<close> is its reading of \<open>Date.now()\<close>.
\<close>

fun cleanup_loop ::
  "int \<Rightarrow> (string \<times> tracking_data) list \<Rightarrow> (string \<times> tracking_data) list \<Rightarrow> nat
     \<Rightarrow> (string \<times> tracking_data) list \<times> nat" where
  "cleanup_loop cutoff [] m cleanedCount = (m, cleanedCount)"
| "cleanup_loop cutoff ((a, metadata) # es) m cleanedCount =
     (if lastActivity metadata < cutoff
      then cleanup_loop cutoff es (AList.delete a m) (cleanedCount + 1)
      else cleanup_loop cutoff es m cleanedCount)"

definition cleanupOldAnchors :: "int \<Rightarrow> anchor_service \<Rightarrow> nat \<times> anchor_service" where
  "cleanupOldAnchors now s =
     (let maxAge = maxAgeHours s * 60 * 60 * 1000;
          cutoff = now - maxAge;
          (m, cleanedCount) = cleanup_loop cutoff (anchors s) (anchors s) 0
      in (cleanedCount,
          s\<lparr>anchors := m,
            stats := (stats s)\<lparr>totalCleaned := totalCleaned (stats s) + cleanedCount\<rparr>\<rparr>))"

text \<open>
  A service in which one anchor has been tracked at time 1000 and moved to status
  \<open>streaming\<close> at time 2000.
\<close>

definition streaming_service :: anchor_service where
  "streaming_service =
     snd (updateAnchor ''msg_1000_abc123'' (no_fields\<lparr>f_status := Some ''streaming''\<rparr>) 2000
       (snd (trackAnchor ''msg_1000_abc123'' no_fields 1000 1000 new_AnchorService)))"

definition tracked_once :: anchor_service where
  "tracked_once = snd (trackAnchor ''msg_1000_abc123'' no_fields 1000 1000 new_AnchorService)"

definition tracked_twice :: anchor_service where
  "tracked_twice = snd (trackAnchor ''msg_1000_abc123'' no_fields 2000 2000 tracked_once)"

section \<open>The page and the probe (websocket-extractor.js)\<close>

text \<open>
  The object an extraction script returns, with the fields \<open>extractContent\<close> reads;
  \<open>None\<close> is a field the object does not have. \<open>ed_complete\<close> is \<open>Some b\<close> only for
  a boolean \<open>complete\<close>.
\<close>

record extracted_data =
  ed_content :: string
  ed_complete :: "bool option"
  ed_messageCount :: "nat option"
  ed_selector :: "string option"
  ed_source :: "string option"
  ed_element :: "string option"

definition no_content :: extracted_data where
  "no_content = \<lparr>ed_content = [], ed_complete = None, ed_messageCount = None,
     ed_selector = None, ed_source = None, ed_element = None\<rparr>"

text \<open>
  The four scripts of \<open>generateExtractionQueries\<close>. The two anchor scripts are built by
  pasting the anchor into their text, between single quotes:
  \<open>const anchorId = '${anchorHash}'\<close>.
\<close>

datatype query = AnchorSequential string | AnchorTurns string | FallbackLatest | FallbackBody

text \<open>
  The scripts the extractor sends run in the page and see it through selectors. An
  element carries what the scripts read of it: its texts, its tag, its \<open>hidden\<close> and
  \<open>disabled\<close> flags, its computed \<open>display\<close> and \<open>visibility\<close>, and its children. A
  page is given by what \<open>querySelectorAll\<close> returns for each selector, the text of its
  body and, for the send button, what the scripts' search by position finds (the
  rightmost small button near the text input that is not a Stop button; \<open>None\<close> is
  \<open>undefined\<close>). \<open>broken_script q\<close> is what the page makes of the text of the script
  \<open>q\<close> when the anchor pasted into it does not stay inside its quotes, so that the
  text is no longer the script that was written (\<open>None\<close>: no value, as when it does
  not parse or throws).
\<close>

datatype element =
  Element (innerText: string) (textContent: string) (tagName: string) (hidden: bool)
    (display: string) (visibility: string) (disabled: bool) (children: "element list")

record dom =
  querySelectorAll :: "string \<Rightarrow> element list"
  bodyInnerText :: string
  nearbySendButton :: "element option"
  broken_script :: "query \<Rightarrow> extracted_data option"

definition querySelector :: "dom \<Rightarrow> string \<Rightarrow> element option" where
  "querySelector d sel = (case querySelectorAll d sel of [] \<Rightarrow> None | e # _ \<Rightarrow> Some e)"

text \<open>\<open>e.innerText || e.textContent || ''\<close>.\<close>

definition text_of :: "element \<Rightarrow> string" where
  "text_of e = (if innerText e \<noteq> [] then innerText e else textContent e)"

text \<open>
  What a call of \<open>executeJavaScript\<close> gives: it throws (timeout, socket or parse error),
  or the response carries no truthy \<open>result.result.result.value\<close>, or it carries a value,
  or its promise never settles.
\<close>

datatype 'a probe = ProbeError | ProbeNoValue | ProbeValue 'a | ProbePending

text \<open>
  The debugging connection at one call: unreachable, or answering without a value (the
  script threw in the page), or evaluating the script on the page as it is then, or
  silent: the socket closes without an answer, or a message with another id arrives;
  either clears the timer, and nothing resolves or rejects the promise afterwards. A
  script is a function of the page; \<open>None\<close> is a script returning null.
\<close>

datatype transport = Unreachable | NoResult | Evaluated dom | Silent

definition executeJavaScript :: "transport \<Rightarrow> (dom \<Rightarrow> 'a option) \<Rightarrow> 'a probe" where
  "executeJavaScript tr script =
     (case tr of
        Unreachable \<Rightarrow> ProbeError
      | NoResult \<Rightarrow> ProbeNoValue
      | Evaluated d \<Rightarrow> (case script d of None \<Rightarrow> ProbeNoValue | Some v \<Rightarrow> ProbeValue v)
      | Silent \<Rightarrow> ProbePending)"

text \<open>
  What awaiting an asynchronous function gives: the value it returns, or nothing, ever,
  when a promise it awaits never settles.
\<close>

datatype 'a async = Returns 'a | Pending

text \<open>The pages \<open>getPages\<close> returns (\<open>None\<close> is null), and \<open>findClaudePage\<close>.\<close>

record page =
  url :: string
  title :: string
  ptype :: string
  webSocketDebuggerUrl :: string

fun find_page :: "page list \<Rightarrow> page option" where
  "find_page [] = None"
| "find_page (p # ps) =
     (if str_includes (url p) ''claude.ai'' \<and> \<not> str_includes (url p) ''login'' then Some p
      else if str_includes (title p) ''Claude'' \<and> ptype p = ''page'' then Some p
      else find_page ps)"

definition findClaudePage :: "page list option \<Rightarrow> page option" where
  "findClaudePage pages =
     (case pages of
        None \<Rightarrow> None
      | Some ps \<Rightarrow>
          (case find_page ps of
             Some p \<Rightarrow> Some p
           | None \<Rightarrow> (case ps of [] \<Rightarrow> None | p # _ \<Rightarrow> Some p)))"

subsection \<open>The extraction queries\<close>

definition generateExtractionQueries :: "string option \<Rightarrow> query list" where
  "generateExtractionQueries anchorHash =
     (case anchorHash of
        None \<Rightarrow> [FallbackLatest, FallbackBody]
      | Some a \<Rightarrow> if a = [] then [FallbackLatest, FallbackBody]
                  else [AnchorSequential a, AnchorTurns a])"

text \<open>
  An anchor that, pasted between single quotes, is a string literal denoting itself: it
  has no single quote, no backslash and no line break.
\<close>

definition plain_literal :: "string \<Rightarrow> bool" where
  "plain_literal a = list_all (\<lambda>c. c \<notin> set [CHR 0x27, CHR 0x5C, CHR 0x0A, CHR 0x0D]) a"

definition plain_query :: "query \<Rightarrow> bool" where
  "plain_query q =
     (case q of
        AnchorSequential a \<Rightarrow> plain_literal a
      | AnchorTurns a \<Rightarrow> plain_literal a
      | FallbackLatest \<Rightarrow> True
      | FallbackBody \<Rightarrow> True)"

definition messageSelectors :: "string list" where
  "messageSelectors =
     [''div[class*=\"message\"]'', ''[data-testid*=\"message\"]'', ''.message'',
      ''.conversation-turn'', ''.chat-message'', ''[role=\"article\"]'',
      ''[data-testid*=\"conversation\"]'', ''[data-testid*=\"human-turn\"]'',
      ''[data-testid*=\"assistant-turn\"]'']"

text \<open>The elements of the first selector that has any.\<close>

fun first_nonempty :: "dom \<Rightarrow> string list \<Rightarrow> element list" where
  "first_nonempty d [] = []"
| "first_nonempty d (sel # sels) =
     (case querySelectorAll d sel of [] \<Rightarrow> first_nonempty d sels | e # es \<Rightarrow> e # es)"

text \<open>The elements after the first one whose text contains \<open>needle\<close>; \<open>None\<close> is index -1.\<close>

fun after_anchored :: "string \<Rightarrow> element list \<Rightarrow> element list option" where
  "after_anchored needle [] = None"
| "after_anchored needle (e # es) =
     (if str_includes (text_of e) needle then Some es else after_anchored needle es)"

fun first_response :: "string \<Rightarrow> element list \<Rightarrow> string option" where
  "first_response needle [] = None"
| "first_response needle (e # es) =
     (if length (text_of e) < 10 then first_response needle es
      else if str_includes (text_of e) needle \<or> str_includes (text_of e) ''[BRIDGE:''
      then first_response needle es
      else Some (text_of e))"

text \<open>
  The scripts as they are written, run on a page with \<open>anchorId\<close> the anchor.
\<close>

fun written_script :: "query \<Rightarrow> dom \<Rightarrow> extracted_data option" where
  "written_script (AnchorSequential anchorId) d =
     (case rx_group (lit ''msg_'') (Plus (Cls Digit)) (Chr CHR ''_'') anchorId of
        None \<Rightarrow> Some no_content
      | Some _ \<Rightarrow>
          (let allMessages = first_nonempty d messageSelectors in
           case allMessages of
             [] \<Rightarrow> Some no_content
           | _ # _ \<Rightarrow>
               (case after_anchored (''ANCHOR: '' @ anchorId) allMessages of
                  None \<Rightarrow> Some no_content
                | Some later \<Rightarrow>
                    (case first_response (''ANCHOR: '' @ anchorId) later of
                       None \<Rightarrow> Some no_content
                     | Some responseText \<Rightarrow>
                         Some (no_content\<lparr>ed_content := responseText,
                                 ed_messageCount := Some (length allMessages)\<rparr>)))))"
| "written_script (AnchorTurns anchorId) d =
     (case querySelector d
             ''[data-testid*=\"conversation\"], .conversation, .chat-messages, .messages'' of
        None \<Rightarrow> Some no_content
      | Some conversationContainer \<Rightarrow>
          (case after_anchored (''ANCHOR: '' @ anchorId) (children conversationContainer) of
             None \<Rightarrow> Some no_content
           | Some [] \<Rightarrow> Some no_content
           | Some (claudeResponseTurn # _) \<Rightarrow>
               (let responseText = text_of claudeResponseTurn in
                if length responseText > 5 \<and> \<not> str_includes responseText ''ANCHOR: ''
                   \<and> \<not> str_includes responseText ''[BRIDGE:''
                then Some (no_content\<lparr>ed_content := responseText\<rparr>)
                else Some no_content)))"
| "written_script FallbackLatest d =
     (case querySelectorAll d
             ''[data-testid*=\"message\"], .message, .conversation-turn, .chat-message'' of
        [] \<Rightarrow> None
      | m # ms \<Rightarrow>
          Some (no_content\<lparr>ed_content := text_of (last (m # ms)),
                  ed_element := Some (tagName (last (m # ms)))\<rparr>))"
| "written_script FallbackBody d =
     (if bodyInnerText d \<noteq> [] \<and> length (bodyInnerText d) > 50
      then Some (no_content\<lparr>ed_content := bodyInnerText d, ed_source := Some ''body''\<rparr>)
      else None)"

text \<open>
  What the page evaluates when it is sent the text of \<open>q\<close>: the script as written when
  the pasted anchor is a plain literal, and otherwise whatever that text then means.
\<close>

definition run_query :: "query \<Rightarrow> dom \<Rightarrow> extracted_data option" where
  "run_query q d = (if plain_query q then written_script q d else broken_script d q)"

subsection \<open>extractContent\<close>

datatype error = CouldNotConnect | CouldNotFindPage | NotInitialized | CallbackRequired

record result_metadata =
  queryIndex :: nat
  attempt :: nat
  messageCount :: "nat option"
  selector :: "string option"
  source :: "string option"
  elem :: "string option"

text \<open>
  The result objects of \<open>extractContent\<close> and \<open>monitorForResponse\<close> and the updates
  given to the stream callback have one shape (their \<open>timestamp\<close> is left out).
\<close>

record result =
  success :: bool
  content :: string
  complete :: bool
  for_anchor :: "string option"
  message :: "string option"
  elapsed :: "int option"
  metadata :: "result_metadata option"

text \<open>
  The inner loop over attempts and the outer loop over queries. \<open>exec queryIndex attempt
  query\<close> is what \<open>executeJavaScript\<close> gives at that call. \<open>Returns None\<close> is a loop that
  ends without a result; the loops are \<open>Pending\<close> when a call they await is.
\<close>

fun try_attempts ::
  "(nat \<Rightarrow> nat \<Rightarrow> query \<Rightarrow> extracted_data probe) \<Rightarrow> string option \<Rightarrow> nat \<Rightarrow> query
     \<Rightarrow> nat list \<Rightarrow> result option async" where
  "try_attempts exec anchorHash qi q [] = Returns None"
| "try_attempts exec anchorHash qi q (at # ats) =
     (case exec qi at q of
        ProbeValue extractedData \<Rightarrow>
          if ed_content extractedData \<noteq> [] \<and> length (ed_content extractedData) > 10
          then Returns (Some \<lparr>success = True, content = ed_content extractedData,
                      complete = (ed_complete extractedData \<noteq> Some False),
                      for_anchor = anchorHash, message = None, elapsed = None,
                      metadata = Some \<lparr>queryIndex = qi, attempt = at + 1,
                        messageCount = ed_messageCount extractedData,
                        selector = ed_selector extractedData,
                        source = ed_source extractedData,
                        elem = ed_element extractedData\<rparr>\<rparr>)
          else try_attempts exec anchorHash qi q ats
      | ProbeNoValue \<Rightarrow> try_attempts exec anchorHash qi q ats
      | ProbeError \<Rightarrow> try_attempts exec anchorHash qi q ats
      | ProbePending \<Rightarrow> Pending)"

fun try_queries ::
  "(nat \<Rightarrow> nat \<Rightarrow> query \<Rightarrow> extracted_data probe) \<Rightarrow> string option \<Rightarrow> nat \<Rightarrow> nat
     \<Rightarrow> query list \<Rightarrow> result option async" where
  "try_queries exec anchorHash retries qi [] = Returns None"
| "try_queries exec anchorHash retries qi (q # qs) =
     (case try_attempts exec anchorHash qi q [0..<retries] of
        Returns (Some r) \<Rightarrow> Returns (Some r)
      | Returns None \<Rightarrow> try_queries exec anchorHash retries (qi + 1) qs
      | Pending \<Rightarrow> Pending)"

definition all_failed :: "string option \<Rightarrow> result" where
  "all_failed anchorHash =
     \<lparr>success = False, content = [], complete = False, for_anchor = anchorHash,
      message = Some ''All extraction queries failed'', elapsed = None, metadata = None\<rparr>"

text \<open>\<open>extractContent\<close>: it throws (\<open>Inl\<close>), returns a result, or never returns.\<close>

definition extractContent ::
  "page list option \<Rightarrow> (nat \<Rightarrow> nat \<Rightarrow> query \<Rightarrow> extracted_data probe) \<Rightarrow> string option \<Rightarrow> nat
     \<Rightarrow> (error + result) async" where
  "extractContent pages exec anchorHash retries =
     (case pages of
        None \<Rightarrow> Returns (Inl CouldNotConnect)
      | Some ps \<Rightarrow>
          (case findClaudePage (Some ps) of
             None \<Rightarrow> Returns (Inl CouldNotFindPage)
           | Some claudePage \<Rightarrow>
               (case try_queries exec anchorHash retries 0 (generateExtractionQueries anchorHash) of
                  Returns (Some r) \<Rightarrow> Returns (Inr r)
                | Returns None \<Rightarrow> Returns (Inr (all_failed anchorHash))
                | Pending \<Rightarrow> Pending)))"

text \<open>
  The calls of \<open>executeJavaScript\<close> inside \<open>extractContent\<close>, when the connection at
  call \<open>(queryIndex, attempt)\<close> is \<open>conn queryIndex attempt\<close>: the value is the one the
  text of the generated script computes on the page.
\<close>

definition exec_on :: "(nat \<Rightarrow> nat \<Rightarrow> transport) \<Rightarrow> nat \<Rightarrow> nat \<Rightarrow> query \<Rightarrow> extracted_data probe" where
  "exec_on conn qi at q = executeJavaScript (conn qi at) (run_query q)"

subsection \<open>detectResponseCompletion\<close>

text \<open>
  The object the completion script returns. \<open>cd_complete\<close> is \<open>Some b\<close> only for a
  boolean \<open>complete\<close>; a value of another shape has \<open>None\<close> there.
\<close>

record completion_data =
  cd_complete :: "bool option"
  indicator :: string
  stopButtonFound :: bool
  stopButtonVisible :: bool
  sendButtonFound :: bool
  sendButtonDisabled :: "bool option"

text \<open>\<open>claudeStillResponding\<close>: a Stop button exists and is visible.\<close>

definition claudeStillResponding :: "dom \<Rightarrow> bool" where
  "claudeStillResponding d =
     (case querySelector d ''[aria-label*=\"Stop\"]'' of
        None \<Rightarrow> False
      | Some stopButton \<Rightarrow>
          \<not> hidden stopButton \<and> display stopButton \<noteq> ''none''
          \<and> visibility stopButton \<noteq> ''hidden'')"

text \<open>
  The send button of the scripts: null without a text input, otherwise what the search
  by position finds (possibly \<open>undefined\<close>, which is not null).
\<close>

datatype send_button = SendNull | SendUndefined | SendButton element

definition find_sendButton :: "dom \<Rightarrow> send_button" where
  "find_sendButton d =
     (case querySelector d ''div[contenteditable=\"true\"]'' of
        None \<Rightarrow> SendNull
      | Some textInput \<Rightarrow>
          (case nearbySendButton d of None \<Rightarrow> SendUndefined | Some b \<Rightarrow> SendButton b))"

definition completionCheck :: "dom \<Rightarrow> completion_data option" where
  "completionCheck d =
     (let stopButton = querySelector d ''[aria-label*=\"Stop\"]'';
          sendButton = find_sendButton d;
          responseComplete = (\<not> claudeStillResponding d)
      in Some \<lparr>cd_complete = Some responseComplete,
                indicator = (if responseComplete then ''stop_button_disappeared''
                             else ''still_responding''),
                stopButtonFound = (case stopButton of None \<Rightarrow> False | Some _ \<Rightarrow> True),
                stopButtonVisible = claudeStillResponding d,
                sendButtonFound = (case sendButton of SendNull \<Rightarrow> False | _ \<Rightarrow> True),
                sendButtonDisabled =
                  (case sendButton of SendButton b \<Rightarrow> Some (disabled b) | _ \<Rightarrow> None)\<rparr>)"

text \<open>
  \<open>detectResponseCompletion\<close>, given the pages and what its one call of
  \<open>executeJavaScript\<close> gives. Every exception inside is caught and gives false; it
  never returns when that call never settles.
\<close>

definition detectResponseCompletion ::
  "page list option \<Rightarrow> completion_data probe \<Rightarrow> bool async" where
  "detectResponseCompletion pages probed =
     (case findClaudePage pages of
        None \<Rightarrow> Returns False
      | Some claudePage \<Rightarrow>
          (case probed of
             ProbeValue completionData \<Rightarrow> Returns (cd_complete completionData = Some True)
           | ProbeNoValue \<Rightarrow> Returns False
           | ProbeError \<Rightarrow> Returns False
           | ProbePending \<Rightarrow> Pending))"

section \<open>checkResponseCompletion (simple-extraction.js)\<close>

text \<open>
  The object \<open>getDOMCompletionState\<close> returns, with the fields
  \<open>checkResponseCompletion\<close> decides on (the texts, sizes and the footer it also
  carries are only logged); \<open>None\<close> below is its null.
\<close>

datatype stop_state = StopNotFound | StopFound (stop_visible: bool)

datatype send_state = SendNotFound | SendFound (send_disabled: bool) (send_visible: bool)

record dom_state =
  isResponding :: bool
  stopButton :: stop_state
  sendButton :: send_state

definition element_visible :: "element \<Rightarrow> bool" where
  "element_visible e = (\<not> hidden e \<and> display e \<noteq> ''none'' \<and> visibility e \<noteq> ''hidden'')"

definition domInspection :: "dom \<Rightarrow> dom_state option" where
  "domInspection d =
     (let stopBtn = querySelector d ''[aria-label*=\"Stop\"]'' in
      Some \<lparr>isResponding = (case stopBtn of None \<Rightarrow> False | Some _ \<Rightarrow> True),
             stopButton = (case stopBtn of
                             None \<Rightarrow> StopNotFound
                           | Some b \<Rightarrow> StopFound (element_visible b)),
             sendButton = (case find_sendButton d of
                             SendButton b \<Rightarrow> SendFound (disabled b) (element_visible b)
                           | _ \<Rightarrow> SendNotFound)\<rparr>)"

text \<open>
  \<open>getDOMCompletionState\<close>: the state, or null when the inspection throws or has no
  value; it never returns when its call of \<open>executeJavaScript\<close> never settles (here, when
  a message with another id arrives).
\<close>

definition getDOMCompletionState :: "transport \<Rightarrow> dom_state option async" where
  "getDOMCompletionState tr =
     (case executeJavaScript tr domInspection of
        ProbeValue v \<Rightarrow> Returns (Some v)
      | ProbeNoValue \<Rightarrow> Returns None
      | ProbeError \<Rightarrow> Returns None
      | ProbePending \<Rightarrow> Pending)"

text \<open>
  The bridge header pattern
  \<open>/\[BRIDGE: #[\w-]+ \| User: [\w-]+ \| \d{4}-\d{2}-\d{2} \d{2}:\d{2}:\d{2}(?:\s*\|\s*ANCHOR:\s*[\w_]+)?\]/\<close>.
\<close>

definition anchorPattern :: rx where
  "anchorPattern =
     seqs [lit ''[BRIDGE: #'', Plus (Cls WordDash), lit '' | User: '', Plus (Cls WordDash),
           lit '' | '', Rep 4 (Cls Digit), Chr CHR ''-'', Rep 2 (Cls Digit), Chr CHR ''-'',
           Rep 2 (Cls Digit), Chr CHR '' '', Rep 2 (Cls Digit), Chr CHR '':'',
           Rep 2 (Cls Digit), Chr CHR '':'', Rep 2 (Cls Digit),
           Opt (seqs [Star (Cls Space), Chr CHR ''|'', Star (Cls Space), lit ''ANCHOR:'',
                      Star (Cls Space), Plus (Cls Word)]),
           Chr CHR '']'']"

text \<open>\<open>String.prototype.trim\<close>.\<close>

definition trim :: "string \<Rightarrow> string" where
  "trim s = rev (dropWhile (in_cls Space) (rev (dropWhile (in_cls Space) s)))"

definition stop_shown :: "stop_state \<Rightarrow> bool" where
  "stop_shown b = (case b of StopNotFound \<Rightarrow> False | StopFound v \<Rightarrow> v)"

definition sendButtonAvailable :: "dom_state \<Rightarrow> bool" where
  "sendButtonAvailable domState =
     (case sendButton domState of
        SendNotFound \<Rightarrow> False
      | SendFound dis vis \<Rightarrow> \<not> dis \<and> vis)"

text \<open>
  \<open>checkResponseCompletion\<close>. Its \<open>while\<close> loop leaves \<open>lastAnchorPosition\<close> at -1
  exactly when the pattern matches nowhere in \<open>bodyText\<close>. \<open>domState\<close> is what
  awaiting the \<open>getDOMCompletionState\<close> argument gives, which is done only past the
  first two returns.
\<close>

definition checkResponseCompletion ::
  "string \<Rightarrow> string \<Rightarrow> dom_state option async \<Rightarrow> bool async" where
  "checkResponseCompletion bodyText extractedContent domState =
     (if extractedContent = [] \<or> length extractedContent < 20 then Returns False
      else if \<not> rx_test anchorPattern bodyText then Returns False
      else (case domState of
              Pending \<Rightarrow> Pending
            | Returns None \<Rightarrow> Returns False
            | Returns (Some st) \<Rightarrow>
                (let hasAnyContent = (extractedContent \<noteq> [] \<and> length (trim extractedContent) > 10);
                     stillResponding = (isResponding st \<and> stop_shown (stopButton st));
                     responseComplete = (\<not> stillResponding \<and> hasAnyContent);
                     available = sendButtonAvailable st
                 in if responseComplete then Returns True else Returns False)))"

section \<open>Change detection and the monitor (websocket-extractor.js)\<close>

subsection \<open>Change detection\<close>

text \<open>
  \<open>hashContent\<close>: \<open>hash = ((hash << 5) - hash) + char; hash = hash & hash\<close> keeps the
  hash a 32-bit integer, printed as a signed decimal.
\<close>

definition hashContent :: "string \<Rightarrow> string" where
  "hashContent s =
     toString (sint (foldl (\<lambda>hash c. (push_bit 5 hash - hash) + of_nat (of_char c))
                       (0 :: 32 word) s))"

text \<open>The extractor's two maps, keyed by anchor.\<close>

record extractor =
  injectionTimestamps :: "string \<rightharpoonup> int"
  lastContentHashes :: "string \<rightharpoonup> string"

definition new_extractor :: extractor where
  "new_extractor = \<lparr>injectionTimestamps = Map.empty, lastContentHashes = Map.empty\<rparr>"

definition trackInjection :: "string \<Rightarrow> int \<Rightarrow> extractor \<Rightarrow> int \<times> extractor" where
  "trackInjection anchorHash now x =
     (now, x\<lparr>injectionTimestamps := (injectionTimestamps x)(anchorHash \<mapsto> now),
             lastContentHashes := (lastContentHashes x)(anchorHash \<mapsto> [])\<rparr>)"

definition isContentNew :: "string \<Rightarrow> string \<Rightarrow> extractor \<Rightarrow> bool \<times> extractor" where
  "isContentNew anchorHash c x =
     (case injectionTimestamps x anchorHash of
        None \<Rightarrow> (False, x)
      | Some injectionTime \<Rightarrow>
          if injectionTime = 0 then (False, x)
          else (let contentHash = hashContent c;
                    lastHash = lastContentHashes x anchorHash
                in if lastHash = Some contentHash then (False, x)
                   else (True, x\<lparr>lastContentHashes :=
                                   (lastContentHashes x)(anchorHash \<mapsto> contentHash)\<rparr>)))"

subsection \<open>monitorForResponse\<close>

text \<open>
  What one run of \<open>streamMonitor\<close> reads from its environment: the clock at its start,
  the answer of \<open>detectResponseStart\<close>, and, for each of the calls it may make, the
  pages and the connection: the extraction, the completion check and the final
  extraction; and whether the stream callback, if called with an update or with the
  final update in this run, throws.
\<close>

record tick =
  t_now :: int
  t_isResponding :: bool
  t_pages :: "page list option"
  t_exec :: "nat \<Rightarrow> nat \<Rightarrow> query \<Rightarrow> extracted_data probe"
  t_callbackThrows :: bool
  t_completionPages :: "page list option"
  t_completion :: "completion_data probe"
  t_finalPages :: "page list option"
  t_finalExec :: "nat \<Rightarrow> nat \<Rightarrow> query \<Rightarrow> extracted_data probe"
  t_finalCallbackThrows :: bool

text \<open>
  The variables of the monitor, the extractor's maps, and the updates the stream
  callback has been called with so far.
\<close>

record monitor =
  lastContent :: string
  responseStarted :: bool
  maps :: extractor
  emitted :: "result list"

definition update_of :: "string \<Rightarrow> string \<Rightarrow> bool \<Rightarrow> result" where
  "update_of anchorHash c is_final =
     \<lparr>success = True, content = c, complete = is_final, for_anchor = Some anchorHash,
      message = None, elapsed = None, metadata = None\<rparr>"

definition emit :: "bool \<Rightarrow> result \<Rightarrow> monitor \<Rightarrow> monitor" where
  "emit streamCallback u m = (if streamCallback then m\<lparr>emitted := emitted m @ [u]\<rparr> else m)"

text \<open>
  The part of a run between the extraction and the completion check: a successful
  extraction with content is passed to \<open>isContentNew\<close> (which records its hash), and
  streamed when it is new and longer than \<open>lastContent\<close>. The second component tells
  whether the callback threw.
\<close>

definition stream_step ::
  "string \<Rightarrow> bool \<Rightarrow> bool \<Rightarrow> result \<Rightarrow> monitor \<Rightarrow> monitor \<times> bool" where
  "stream_step anchorHash streamCallback throws r m =
     (if success r \<and> content r \<noteq> [] then
        (case isContentNew anchorHash (content r) (maps m) of
           (new, x) \<Rightarrow>
             if new \<and> length (content r) > length (lastContent m)
             then (emit streamCallback (update_of anchorHash (content r) False)
                     (m\<lparr>maps := x, lastContent := content r\<rparr>),
                   streamCallback \<and> throws)
             else (m\<lparr>maps := x\<rparr>, False))
      else (m, False))"

text \<open>
  The promise of \<open>monitorForResponse\<close> after the runs given: resolved with a result;
  or pending with the next run scheduled; or pending for ever, because a run awaits a
  call that never returns and so never schedules the next run.
\<close>

datatype promise = Resolved result | Rescheduled | Stuck

text \<open>
  One run of \<open>streamMonitor\<close>: it resolves the promise, or schedules the next run, or
  awaits a call that never returns. An exception inside the \<open>try\<close> (from
  \<open>extractContent\<close> or from the callback) is caught and leads to the next run.
\<close>

definition streamMonitor_run ::
  "string \<Rightarrow> int \<Rightarrow> bool \<Rightarrow> int \<Rightarrow> tick \<Rightarrow> monitor \<Rightarrow> promise \<times> monitor" where
  "streamMonitor_run anchorHash timeout streamCallback startTime t m =
     (let el = t_now t - startTime in
      if el \<ge> timeout then
        (Resolved \<lparr>success = False, content = lastContent m, complete = False,
                    for_anchor = Some anchorHash,
                    message = Some ''Response monitoring timeout'',
                    elapsed = Some el, metadata = None\<rparr>, m)
      else if \<not> responseStarted m \<and> \<not> t_isResponding t then (Rescheduled, m)
      else
        (let m1 = m\<lparr>responseStarted := True\<rparr> in
         case extractContent (t_pages t) (t_exec t) (Some anchorHash) 1 of
           Pending \<Rightarrow> (Stuck, m1)
         | Returns (Inl e) \<Rightarrow> (Rescheduled, m1)
         | Returns (Inr r) \<Rightarrow>
             (case stream_step anchorHash streamCallback (t_callbackThrows t) r m1 of
                (m2, threw) \<Rightarrow>
                  if threw then (Rescheduled, m2)
                  else
                    (case detectResponseCompletion (t_completionPages t) (t_completion t) of
                       Pending \<Rightarrow> (Stuck, m2)
                     | Returns False \<Rightarrow> (Rescheduled, m2)
                     | Returns True \<Rightarrow>
                         (case extractContent (t_finalPages t) (t_finalExec t)
                                 (Some anchorHash) 2 of
                            Pending \<Rightarrow> (Stuck, m2)
                          | Returns (Inl e) \<Rightarrow> (Rescheduled, m2)
                          | Returns (Inr finalResult) \<Rightarrow>
                              (let m3 = (if success finalResult
                                            \<and> length (content finalResult)
                                                > length (lastContent m2)
                                         then m2\<lparr>lastContent := content finalResult\<rparr>
                                         else m2);
                                   m4 = emit streamCallback
                                          (update_of anchorHash (lastContent m3) True) m3
                               in if streamCallback \<and> t_finalCallbackThrows t
                                  then (Rescheduled, m4)
                                  else (Resolved \<lparr>success = True, content = lastContent m4,
                                                   complete = True,
                                                   for_anchor = Some anchorHash,
                                                   message = None, elapsed = Some el,
                                                   metadata = None\<rparr>, m4)))))))"

text \<open>
  The runs of \<open>streamMonitor\<close>, one per element of the list: each run that schedules
  the next is followed by it.
\<close>

fun streamMonitor ::
  "string \<Rightarrow> int \<Rightarrow> bool \<Rightarrow> int \<Rightarrow> tick list \<Rightarrow> monitor \<Rightarrow> promise \<times> monitor" where
  "streamMonitor anchorHash timeout streamCallback startTime [] m = (Rescheduled, m)"
| "streamMonitor anchorHash timeout streamCallback startTime (t # ts) m =
     (case streamMonitor_run anchorHash timeout streamCallback startTime t m of
        (Rescheduled, m') \<Rightarrow> streamMonitor anchorHash timeout streamCallback startTime ts m'
      | (Resolved r, m') \<Rightarrow> (Resolved r, m')
      | (Stuck, m') \<Rightarrow> (Stuck, m'))"

definition monitorForResponse ::
  "string \<Rightarrow> int \<Rightarrow> bool \<Rightarrow> int \<Rightarrow> extractor \<Rightarrow> tick list \<Rightarrow> promise \<times> monitor" where
  "monitorForResponse anchorHash timeout streamCallback startTime x ticks =
     streamMonitor anchorHash timeout streamCallback startTime ticks
       \<lparr>lastContent = [], responseStarted = False, maps = x, emitted = []\<rparr>"

text \<open>The updates of one monitor never shrink.\<close>

definition nondecreasing :: "result list \<Rightarrow> bool" where
  "nondecreasing us = sorted_wrt (\<lambda>u v. length (content u) \<le> length (content v)) us"

text \<open>
  Two invariants of the monitor: the updates received so far never shrink and none is
  longer than \<open>lastContent\<close>; and, with a callback, \<open>lastContent\<close> is the content of
  the last update received (empty before the first).
\<close>

definition bounded :: "monitor \<Rightarrow> bool" where
  "bounded m = (nondecreasing (emitted m)
     \<and> list_all (\<lambda>u. length (content u) \<le> length (lastContent m)) (emitted m))"

definition synced :: "monitor \<Rightarrow> bool" where
  "synced m = (lastContent m = (case emitted m of [] \<Rightarrow> [] | _ # _ \<Rightarrow> content (last (emitted m))))"

text \<open>
  A run before the timeout in which the calls awaited return and the completion check
  does not fire.
\<close>

definition waiting :: "string \<Rightarrow> int \<Rightarrow> int \<Rightarrow> tick \<Rightarrow> bool" where
  "waiting anchorHash timeout startTime u =
     (t_now u - startTime < timeout
      \<and> (case extractContent (t_pages u) (t_exec u) (Some anchorHash) 1 of
           Pending \<Rightarrow> False | Returns _ \<Rightarrow> True)
      \<and> detectResponseCompletion (t_completionPages u) (t_completion u) = Returns False)"

text \<open>
  A run before the timeout, of a monitor with variables \<open>m\<close>, in which the response has
  started, the completion check fires, both extractions return a result and the
  callback does not throw.
\<close>

definition gives_result :: "(error + result) async \<Rightarrow> bool" where
  "gives_result e = (case e of Returns (Inr r) \<Rightarrow> True | Returns (Inl x) \<Rightarrow> False | Pending \<Rightarrow> False)"

definition completing :: "string \<Rightarrow> int \<Rightarrow> int \<Rightarrow> monitor \<Rightarrow> tick \<Rightarrow> bool" where
  "completing anchorHash timeout startTime m t =
     (t_now t - startTime < timeout
      \<and> (responseStarted m \<or> t_isResponding t)
      \<and> gives_result (extractContent (t_pages t) (t_exec t) (Some anchorHash) 1)
      \<and> detectResponseCompletion (t_completionPages t) (t_completion t) = Returns True
      \<and> gives_result (extractContent (t_finalPages t) (t_finalExec t) (Some anchorHash) 2)
      \<and> t_callbackThrows t = False \<and> t_finalCallbackThrows t = False)"

section \<open>Starting a stream or a monitor\<close>

text \<open>
  \<open>MessageService.streamResponse\<close> runs in two parts: up to its \<open>await\<close> it checks its
  arguments, records the anchor in \<open>activeExtractions\<close> and calls
  \<open>monitorForResponse\<close>, which starts a chain of \<open>streamMonitor\<close> runs; when that
  promise resolves it deletes the anchor from \<open>activeExtractions\<close>. \<open>monitors\<close> lists
  the anchor of every chain started and not yet resolved, one entry per chain.
\<close>

record message_service =
  initialized :: bool
  activeExtractions :: "(string \<times> int) list"
  monitors :: "string list"

definition new_MessageService :: message_service where
  "new_MessageService = \<lparr>initialized = False, activeExtractions = [], monitors = []\<rparr>"

definition streamResponse_begin ::
  "string \<Rightarrow> bool \<Rightarrow> int \<Rightarrow> message_service \<Rightarrow> error + message_service" where
  "streamResponse_begin a callback_is_function now s =
     (if \<not> initialized s then Inl NotInitialized
      else if \<not> callback_is_function then Inl CallbackRequired
      else Inr (s\<lparr>activeExtractions := AList.update a now (activeExtractions s),
                  monitors := monitors s @ [a]\<rparr>))"

definition streamResponse_end :: "string \<Rightarrow> message_service \<Rightarrow> message_service" where
  "streamResponse_end a s =
     s\<lparr>activeExtractions := AList.delete a (activeExtractions s),
       monitors := remove1 a (monitors s)\<rparr>"

text \<open>
  \<open>ClaudeDesktopAPIServer.startProactiveMonitoring\<close>: \<open>activeMonitoring\<close> is the set
  it creates on first use (\<open>None\<close> before), \<open>intervals\<close> lists the anchor of every
  \<open>setInterval\<close> loop it has started.
\<close>

record api_server =
  activeMonitoring :: "string list option"
  intervals :: "string list"

definition startProactiveMonitoring :: "string \<Rightarrow> api_server \<Rightarrow> api_server" where
  "startProactiveMonitoring a s =
     (case activeMonitoring s of
        Some am \<Rightarrow>
          if a \<in> set am then s
          else s\<lparr>activeMonitoring := Some (am @ [a]), intervals := intervals s @ [a]\<rparr>
      | None \<Rightarrow> s\<lparr>activeMonitoring := Some [a], intervals := intervals s @ [a]\<rparr>)"

section \<open>Pages and scripts used as examples\<close>

definition claude_page :: page where
  "claude_page = \<lparr>url = ''https://claude.ai/chat/1'', title = ''Claude'', ptype = ''page'',
     webSocketDebuggerUrl = ''ws://localhost:9223/devtools/page/1''\<rparr>"

definition message_element :: "string \<Rightarrow> element" where
  "message_element t = Element t t ''DIV'' False ''block'' ''visible'' False []"

definition stop_element :: element where
  "stop_element = Element [] [] ''BUTTON'' False ''flex'' ''visible'' False []"

definition no_value :: "query \<Rightarrow> extracted_data option" where
  "no_value q = None"

text \<open>
  A page showing the injected message with its anchor and, after it, the reply \<open>reply\<close>;
  the Stop button is there while \<open>busy\<close>.
\<close>

definition chat_page :: "string \<Rightarrow> bool \<Rightarrow> dom" where
  "chat_page reply busy =
     \<lparr>querySelectorAll =
        (\<lambda>sel. if sel = ''div[class*=\"message\"]''
               then [message_element ''hello ANCHOR: msg_1000_abc123'', message_element reply]
               else if sel = ''[aria-label*=\"Stop\"]'' \<and> busy then [stop_element]
               else []),
      bodyInnerText = ''hello ANCHOR: msg_1000_abc123'' @ reply,
      nearbySendButton = None,
      broken_script = no_value\<rparr>"

text \<open>A connection that evaluates every script of an extraction on \<open>d\<close>.\<close>

definition always :: "dom \<Rightarrow> nat \<Rightarrow> nat \<Rightarrow> transport" where
  "always d qi at = Evaluated d"

text \<open>A run of the monitor in which the connection evaluates every script on \<open>d\<close>
  and the callback returns normally.\<close>

definition tick_on :: "int \<Rightarrow> dom \<Rightarrow> tick" where
  "tick_on now d =
     \<lparr>t_now = now, t_isResponding = True,
      t_pages = Some [claude_page], t_exec = exec_on (always d),
      t_callbackThrows = False,
      t_completionPages = Some [claude_page],
      t_completion = executeJavaScript (Evaluated d) completionCheck,
      t_finalPages = Some [claude_page], t_finalExec = exec_on (always d),
      t_finalCallbackThrows = False\<rparr>"

definition tracked_extractor :: extractor where
  "tracked_extractor = snd (trackInjection ''msg_1000_abc123'' 1000 new_extractor)"

definition answer :: string where
  "answer = ''This is the answer that Claude has written.''"

text \<open>
  A page whose text is the answer alone, without a bridge header and without a Stop
  button, and a page text that starts with a bridge header.
\<close>

definition answer_page :: dom where
  "answer_page = \<lparr>querySelectorAll = (\<lambda>sel. []), bodyInnerText = answer,
     nearbySendButton = None, broken_script = no_value\<rparr>"

definition bridge_body :: string where
  "bridge_body = ''[BRIDGE: #town-square | User: ben | 2025-08-09 10:00:00]'' @ answer"

text \<open>
  Three runs of the monitor, one second apart, on a reply that grows while the Stop
  button is visible and is finished at the third.
\<close>

definition tick1 :: tick where
  "tick1 = tick_on 2000 (chat_page ''Hi there, this'' True)"

definition tick2 :: tick where
  "tick2 = tick_on 3000 (chat_page ''Hi there, this is Claude.'' True)"

definition tick3 :: tick where
  "tick3 = tick_on 4000 (chat_page ''Hi there, this is Claude. Done.'' False)"

text \<open>
  A run, one second after the start, on the finished answer, in which \<open>getPages\<close>
  returns null at the final extraction, so that \<open>extractContent\<close> throws there; a run in
  which the socket of the first extraction's call closes without an answer; and a run
  sixty seconds after the start.
\<close>

definition tick_lost :: tick where
  "tick_lost = (tick_on 2000 (chat_page answer False))\<lparr>t_finalPages := None\<rparr>"

definition never_answers :: "nat \<Rightarrow> nat \<Rightarrow> transport" where
  "never_answers qi at = Silent"

definition tick_silent :: tick where
  "tick_silent = (tick_on 2000 (chat_page answer True))\<lparr>t_exec := exec_on never_answers\<rparr>"

definition tick_late :: tick where
  "tick_late = tick_on 61000 (chat_page answer False)"

text \<open>
  An anchor that closes the quotes it is pasted between. With it the text of the first
  script starts
  \<^verbatim>\<open>const anchorId = 'msg_1_x'; return {content: 'AAAAAAAAAAAAAAAA', complete: false}; '';\<close>
  and so returns that object on every page, as does the text of the second script; this
  is what \<open>injected_page\<close> records.
\<close>

definition crafted_anchor :: string where
  "crafted_anchor =
     ''msg_1_x'' @ [CHR 0x27] @ ''; return {content: '' @ [CHR 0x27] @ ''AAAAAAAAAAAAAAAA''
       @ [CHR 0x27] @ '', complete: false}; '' @ [CHR 0x27]"

definition crafted_value :: "query \<Rightarrow> extracted_data option" where
  "crafted_value q =
     (if q = AnchorSequential crafted_anchor \<or> q = AnchorTurns crafted_anchor
      then Some (no_content\<lparr>ed_content := ''AAAAAAAAAAAAAAAA'', ed_complete := Some False\<rparr>)
      else None)"

definition injected_page :: dom where
  "injected_page = (chat_page answer True)\<lparr>broken_script := crafted_value\<rparr>"

text \<open>An initialized message service, and \<open>streamResponse\<close> called for one anchor once
  and then a second time before the first call has resolved.\<close>

definition initialized_service :: message_service where
  "initialized_service = new_MessageService\<lparr>initialized := True\<rparr>"

definition stream_once :: "error + message_service" where
  "stream_once = streamResponse_begin ''msg_1000_abc123'' True 1000 initialized_service"

definition stream_twice :: "error + message_service" where
  "stream_twice =
     (case stream_once of
        Inl e \<Rightarrow> Inl e
      | Inr s \<Rightarrow> streamResponse_begin ''msg_1000_abc123'' True 2000 s)"

section \<open>Properties of the anchor registry\<close>

declare show_digits.simps [simp del]
declare rx_rems.simps(6) [simp del]

subsection \<open>The sweep\<close>

lemma map_of_cleanup_loop:
  "map_of (fst (cleanup_loop cutoff es m n)) a =
     (if \<exists>md. (a, md) \<in> set es \<and> lastActivity md < cutoff then None else map_of m a)"
proof (induction es arbitrary: m n)
  case Nil
  then show ?case by simp
next
  case (Cons e es)
  obtain b md where e: "e = (b, md)" by (cases e)
  show ?case
    using Cons.IH by (auto simp: e delete_conv)
qed

lemma distinct_cleanup_loop:
  "distinct (map fst m) \<Longrightarrow> distinct (map fst (fst (cleanup_loop cutoff es m n)))"
proof (induction es arbitrary: m n)
  case Nil
  then show ?case by simp
next
  case (Cons e es)
  obtain b md where e: "e = (b, md)" by (cases e)
  show ?case
    using Cons by (auto simp: e distinct_delete)
qed

text \<open>The keys of the map stay distinct under every operation of the service.\<close>

lemma distinct_new_AnchorService: "distinct (map fst (anchors new_AnchorService))"
  by (simp add: new_AnchorService_def)

lemma distinct_trackAnchor:
  "distinct (map fst (anchors s)) \<Longrightarrow> distinct (map fst (anchors (snd (trackAnchor a md t u s))))"
  by (simp add: trackAnchor_def Let_def distinct_update)

lemma distinct_updateAnchor:
  "distinct (map fst (anchors s)) \<Longrightarrow> distinct (map fst (anchors (snd (updateAnchor a upd t s))))"
  by (simp add: updateAnchor_def Let_def distinct_update split: option.splits)

lemma distinct_cleanupOldAnchors:
  "distinct (map fst (anchors s)) \<Longrightarrow> distinct (map fst (anchors (snd (cleanupOldAnchors now s))))"
  using distinct_cleanup_loop [of "anchors s" "now - maxAgeHours s * 60 * 60 * 1000" "anchors s" 0]
  by (auto simp: cleanupOldAnchors_def Let_def split: prod.splits)

lemma streaming_service_eval:
  "streaming_service =
     \<lparr>maxAgeHours = 24,
      anchors = [(''msg_1000_abc123'',
        \<lparr>anchor = ''msg_1000_abc123'', createdAt = 1000, status = ''streaming'',
         contextId = JNull, injectionResult = JNull, extractionResult = JNull,
         lastActivity = 2000, extra = []\<rparr>)],
      stats = \<lparr>totalGenerated = 0, totalTracked = 1, totalCleaned = 0,
               oldestAnchor = None, newestAnchor = None\<rparr>\<rparr>"
  by (simp add: streaming_service_def updateAnchor_def trackAnchor_def new_AnchorService_def
      spread_def no_fields_def Let_def)

text \<open>
  C1, as stated, fails: an anchor in status \<open>streaming\<close> whose last activity (time 2000)
  is more than 24 hours before the sweep (time 86402001) is removed by it.
\<close>

theorem cleanupOldAnchors_removes_streaming:
  "map_option status (getAnchor ''msg_1000_abc123'' streaming_service) = Some ''streaming''
   \<and> getAnchor ''msg_1000_abc123'' (snd (cleanupOldAnchors 86402001 streaming_service)) = None"
  by (simp add: streaming_service_eval getAnchor_def cleanupOldAnchors_def Let_def)

text \<open>
  C1, amended: the sweep decides by age alone. A record is removed exactly when its
  \<open>lastActivity\<close> is earlier than \<open>now - maxAge\<close>, whatever its status; so a record in
  status \<open>responding\<close> or \<open>streaming\<close> is kept exactly when its \<open>lastActivity\<close> is not
  earlier than the cutoff.
\<close>

theorem cleanupOldAnchors_by_age:
  assumes "distinct (map fst (anchors s))"
  shows "getAnchor a (snd (cleanupOldAnchors now s)) =
     (case getAnchor a s of
        None \<Rightarrow> None
      | Some md \<Rightarrow>
          if lastActivity md < now - maxAgeHours s * 60 * 60 * 1000 then None else Some md)"
proof -
  let ?cutoff = "now - maxAgeHours s * 60 * 60 * 1000"
  have "getAnchor a (snd (cleanupOldAnchors now s)) =
          map_of (fst (cleanup_loop ?cutoff (anchors s) (anchors s) 0)) a"
    by (simp add: cleanupOldAnchors_def getAnchor_def Let_def split: prod.splits)
  also have "\<dots> = (if \<exists>md. (a, md) \<in> set (anchors s) \<and> lastActivity md < ?cutoff
                    then None else map_of (anchors s) a)"
    by (rule map_of_cleanup_loop)
  also have "\<dots> = (case map_of (anchors s) a of
        None \<Rightarrow> None
      | Some md \<Rightarrow> if lastActivity md < ?cutoff then None else Some md)"
    using assms by (auto split: option.splits dest: map_of_SomeD eq_key_imp_eq_value)
  finally show ?thesis by (simp add: getAnchor_def)
qed

theorem cleanupOldAnchors_by_age_witness:
  "distinct (map fst (anchors streaming_service))
   \<and> getAnchor ''msg_1000_abc123'' (snd (cleanupOldAnchors 86402000 streaming_service))
       = getAnchor ''msg_1000_abc123'' streaming_service
   \<and> getAnchor ''msg_1000_abc123'' (snd (cleanupOldAnchors 86402001 streaming_service)) = None"
proof -
  have d: "distinct (map fst (anchors streaming_service))"
    by (simp add: streaming_service_eval)
  show ?thesis
    using d cleanupOldAnchors_by_age [OF d, of "''msg_1000_abc123''" 86402000]
      cleanupOldAnchors_by_age [OF d, of "''msg_1000_abc123''" 86402001]
    by (simp add: streaming_service_eval getAnchor_def)
qed

subsection \<open>Tracking\<close>

text \<open>
  C4, as stated, fails: tracking \<open>msg_1000_abc123\<close> at time 1000 and again at time 2000
  leaves a record whose \<open>createdAt\<close> is 2000, not the 1000 of the first call.
\<close>

theorem trackAnchor_twice_resets_createdAt:
  "map_option createdAt (getAnchor ''msg_1000_abc123'' tracked_once) = Some 1000
   \<and> map_option createdAt (getAnchor ''msg_1000_abc123'' tracked_twice) = Some 2000"
  by (simp add: tracked_twice_def tracked_once_def trackAnchor_def getAnchor_def
      new_AnchorService_def spread_def no_fields_def Let_def)

text \<open>
  C4, amended: tracking an id again replaces its record by the one the second call
  builds, so that \<open>createdAt\<close> after the second call is the second call's reading of
  the clock (or the \<open>createdAt\<close> its metadata carries), whatever the first call recorded.
\<close>

theorem trackAnchor_again_replaces:
  "getAnchor a (snd (trackAnchor a md2 t2 u2 (snd (trackAnchor a md1 t1 u1 s))))
     = Some (fst (trackAnchor a md2 t2 u2 s))
   \<and> createdAt (fst (trackAnchor a md2 t2 u2 s))
     = (case f_createdAt md2 of None \<Rightarrow> t2 | Some c \<Rightarrow> c)"
  by (simp add: trackAnchor_def getAnchor_def Let_def update_conv' spread_def
      split: option.splits)

subsection \<open>Anchor ids\<close>

lemma rx_rems_lit: "rx_rems (lit w) (w @ s) = [s]"
  by (induction w) auto

lemma rx_rems_Star_Digit:
  "rx_rems (Star (Cls Digit)) s \<noteq> [] \<and> hd (rx_rems (Star (Cls Digit)) s) = dropWhile isDigit s"
proof (induction s)
  case Nil
  show ?case by (subst (1 2) rx_rems.simps) simp
next
  case (Cons c s)
  show ?case
  proof (cases "isDigit c")
    case True
    have "rx_rems (Star (Cls Digit)) (c # s) = rx_rems (Star (Cls Digit)) s @ [c # s]"
      using True by (subst rx_rems.simps) simp
    with Cons True show ?thesis by simp
  next
    case False
    have "rx_rems (Star (Cls Digit)) (c # s) = [c # s]"
      using False by (subst rx_rems.simps) simp
    with False show ?thesis by simp
  qed
qed

lemma isDigit_digit_char: "d < 10 \<Longrightarrow> isDigit (digit_char d)"
  by (simp add: isDigit_def digit_char_def)

lemma digit_val_digit_char: "d < 10 \<Longrightarrow> digit_val (digit_char d) = d"
  by (simp add: digit_val_def digit_char_def)

lemma show_digits_digits:
  "0 \<le> n \<Longrightarrow> show_digits n \<noteq> [] \<and> (\<forall>c \<in> set (show_digits n). isDigit c)"
proof (induction n rule: show_digits.induct)
  case (1 n)
  show ?case
  proof (cases "n < 10")
    case True
    with "1.prems" show ?thesis
      by (subst (1 2) show_digits.simps) (simp add: isDigit_digit_char)
  next
    case False
    with "1.prems" "1.IH" show ?thesis
      by (subst (1 2) show_digits.simps) (simp add: isDigit_digit_char)
  qed
qed

lemma show_digits_value:
  "0 \<le> n \<Longrightarrow> foldl (\<lambda>acc c. 10 * acc + int (digit_val c)) 0 (show_digits n) = n"
proof (induction n rule: show_digits.induct)
  case (1 n)
  show ?case
  proof (cases "n < 10")
    case True
    with "1.prems" show ?thesis
      by (subst show_digits.simps) (simp add: digit_val_digit_char)
  next
    case False
    with "1.prems" "1.IH" show ?thesis
      by (subst show_digits.simps) (simp add: digit_val_digit_char)
  qed
qed

lemma parseInt_show_digits: "0 \<le> n \<Longrightarrow> parseInt (show_digits n) = Some n"
proof -
  assume n: "0 \<le> n"
  then have "takeWhile isDigit (show_digits n) = show_digits n"
    using show_digits_digits by (simp add: takeWhile_eq_all_conv)
  moreover obtain d ds where "show_digits n = d # ds"
    using show_digits_digits [OF n] by (cases "show_digits n") auto
  ultimately show ?thesis
    using show_digits_value [OF n] by (simp add: parseInt_def)
qed

lemma not_isDigit_underscore: "\<not> isDigit CHR ''_''"
  by (simp add: isDigit_def)

text \<open>
  On \<open>msg_\<close>, digits, \<open>_\<close> and any suffix, the first match of \<open>/msg_(\d+)_/\<close> starts at
  the first character and its group is the whole run of digits.
\<close>

lemma rx_group_msg:
  assumes "ds \<noteq> []" "\<forall>c \<in> set ds. isDigit c"
  shows "rx_group (lit ''msg_'') (Plus (Cls Digit)) (Chr CHR ''_'') (''msg_'' @ (ds @ CHR ''_'' # suf))
           = Some ds"
proof -
  obtain d dt where ds: "ds = d # dt" using assms(1) by (cases ds) auto
  let ?t1 = "ds @ CHR ''_'' # suf"
  let ?u = "dt @ CHR ''_'' # suf"
  have dw: "dropWhile isDigit ?u = CHR ''_'' # suf"
    using assms(2) by (simp add: ds dropWhile_append3 not_isDigit_underscore)
  have grp: "rx_rems (Plus (Cls Digit)) ?t1 = rx_rems (Star (Cls Digit)) ?u"
    using assms(2) by (simp add: Plus_def ds)
  obtain r rs where rr: "rx_rems (Star (Cls Digit)) ?u = r # rs"
    using rx_rems_Star_Digit [of ?u] by (cases "rx_rems (Star (Cls Digit)) ?u") auto
  have r: "r = CHR ''_'' # suf"
    using rx_rems_Star_Digit [of ?u] rr dw by simp
  have "rx_group_at (lit ''msg_'') (Plus (Cls Digit)) (Chr CHR ''_'') (''msg_'' @ ?t1) = Some ds"
    by (simp add: rx_group_at_def grp rr r)
  then show ?thesis by simp
qed

text \<open>
  C8: the timestamp read back from a generated anchor is the \<open>Date.now()\<close> value that
  \<open>generateAnchor\<close> embedded, for every clock reading from the epoch on and every random
  part.
\<close>

theorem extractTimestamp_generateAnchor:
  "0 \<le> now \<Longrightarrow> extractTimestamp (fst (generateAnchor now r36 s)) = Some now"
  using show_digits_digits [of now] rx_group_msg [of "show_digits now" "substring 2 8 r36"]
  by (simp add: generateAnchor_def Let_def extractTimestamp_def toString_def parseInt_show_digits)

theorem extractTimestamp_generateAnchor_witness:
  "(0::int) \<le> 1700000000000
   \<and> fst (generateAnchor 1700000000000 ''0.4fzyo82mvyr'' new_AnchorService)
       = ''msg_1700000000000_4fzyo8''
   \<and> extractTimestamp ''msg_1700000000000_4fzyo8'' = Some 1700000000000"
proof -
  have a: "fst (generateAnchor 1700000000000 ''0.4fzyo82mvyr'' new_AnchorService)
             = ''msg_1700000000000_4fzyo8''"
    by code_simp
  show ?thesis
    using extractTimestamp_generateAnchor [of 1700000000000 "''0.4fzyo82mvyr''" new_AnchorService]
    by (simp add: a)
qed

text \<open>
  C10 fails on the code: when \<open>Math.random()\<close> returns 0, its base-36 text is \<open>0\<close>, the
  random part \<open>substring(2, 8)\<close> of it is empty, and the generated id
  \<open>msg_1700000000000_\<close> is rejected by \<open>isValidAnchor\<close>.
\<close>

theorem generateAnchor_empty_suffix_invalid:
  "fst (generateAnchor 1700000000000 ''0'' new_AnchorService) = ''msg_1700000000000_''
   \<and> isValidAnchor (fst (generateAnchor 1700000000000 ''0'' new_AnchorService)) = False"
  by code_simp

text \<open>An id with a six-character random part is accepted.\<close>

lemma generateAnchor_valid_example:
  "isValidAnchor (fst (generateAnchor 1700000000000 ''0.4fzyo82mvyr'' new_AnchorService))"
  by code_simp

lemma rx_rems_Rep_Digit:
  "length ds = n \<Longrightarrow> \<forall>c \<in> set ds. isDigit c \<Longrightarrow> rx_rems (Rep n (Cls Digit)) (ds @ s) = [s]"
proof (induction n arbitrary: ds)
  case 0
  then show ?case by simp
next
  case (Suc n)
  then obtain d dt where "ds = d # dt" by (cases ds) auto
  with Suc show ?case by simp
qed

lemma rx_rems_Star_all:
  "\<forall>c \<in> set s. in_cls k c \<Longrightarrow> [] \<in> set (rx_rems (Star (Cls k)) s)"
proof (induction s)
  case Nil
  show ?case by (subst rx_rems.simps) simp
next
  case (Cons c s)
  then show ?case by (subst rx_rems.simps) simp
qed

lemma length_show_digits:
  "10 ^ k \<le> n \<Longrightarrow> n < 10 ^ Suc k \<Longrightarrow> length (show_digits n) = Suc k"
proof (induction k arbitrary: n)
  case 0
  then show ?case by (subst show_digits.simps) simp
next
  case (Suc k)
  have "(10::int) \<le> 10 * 10 ^ k" by simp
  moreover from Suc.prems have "10 * 10 ^ k \<le> n" by simp
  ultimately have big: "\<not> n < 10" by linarith
  have "10 ^ k \<le> n div 10" "n div 10 < 10 ^ Suc k"
    using Suc.prems by auto
  then have "length (show_digits (n div 10)) = Suc k" by (rule Suc.IH)
  with big show ?case by (subst show_digits.simps) simp
qed

lemma LowerNum_Alnum: "in_cls LowerNum c \<Longrightarrow> in_cls Alnum c"
  by auto

text \<open>
  An id generated while \<open>Date.now()\<close> has thirteen digits is accepted as soon as its
  random part is not empty.
\<close>

lemma generateAnchor_valid:
  assumes "10 ^ 12 \<le> now" "now < 10 ^ 13" "substring 2 8 r36 \<noteq> []"
    and "\<forall>c \<in> set (substring 2 8 r36). in_cls LowerNum c"
  shows "isValidAnchor (fst (generateAnchor now r36 s))"
proof -
  let ?ds = "show_digits now" and ?suf = "substring 2 8 r36"
  have n0: "0 \<le> now" using assms(1) by simp
  have len: "length ?ds = 13"
    using length_show_digits [of 12 now] assms(1,2) by simp
  have digs: "\<forall>c \<in> set ?ds. isDigit c" using show_digits_digits [OF n0] by simp
  have a: "fst (generateAnchor now r36 s) = ''msg_'' @ (?ds @ CHR ''_'' # ?suf)"
    using n0 by (simp add: generateAnchor_def Let_def toString_def)
  have r13: "rx_rems (Rep 13 (Cls Digit)) (?ds @ CHR ''_'' # ?suf) = [CHR ''_'' # ?suf]"
    using rx_rems_Rep_Digit [OF len digs] .
  obtain c cs where suf: "?suf = c # cs" using assms(3) by (cases ?suf) auto
  have alnum: "in_cls Alnum c" "\<forall>x \<in> set cs. in_cls Alnum x"
    using assms(4) LowerNum_Alnum unfolding suf by auto
  have plus: "[] \<in> set (rx_rems (Plus (Cls Alnum)) ?suf)"
    using alnum rx_rems_Star_all [of cs Alnum] by (simp add: suf Plus_def)
  have pre: "rx_rems (lit ''msg_'') (''msg_'' @ (?ds @ CHR ''_'' # ?suf)) = [?ds @ CHR ''_'' # ?suf]"
    by (rule rx_rems_lit)
  have "rx_rems legacyFormat (''msg_'' @ (?ds @ CHR ''_'' # ?suf))
          = concat (map (rx_rems Eps) (rx_rems (Plus (Cls Alnum)) ?suf))"
    unfolding legacyFormat_def seqs.simps rx_rems.simps(4) pre
    by (simp add: r13 del: Rep.simps)
  then have "[] \<in> set (rx_rems legacyFormat (''msg_'' @ (?ds @ CHR ''_'' # ?suf)))"
    using plus by simp
  then show ?thesis
    by (simp add: isValidAnchor_def rx_test_anchored_def a)
qed

section \<open>Properties of the extraction and completion engine\<close>

subsection \<open>Extraction\<close>

lemma written_script_no_complete: "written_script q d = Some v \<Longrightarrow> ed_complete v = None"
  by (cases q) (auto simp: no_content_def Let_def split: option.splits list.splits if_splits)

lemma run_query_no_complete:
  "plain_query q \<Longrightarrow> run_query q d = Some v \<Longrightarrow> ed_complete v = None"
  by (simp add: run_query_def written_script_no_complete)

lemma exec_on_no_complete:
  "plain_query q \<Longrightarrow> exec_on conn qi at q = ProbeValue v \<Longrightarrow> ed_complete v = None"
  by (auto simp: exec_on_def executeJavaScript_def run_query_no_complete
      split: transport.splits option.splits)

lemma try_attempts_Some:
  "try_attempts exec a qi q ats = Returns (Some r) \<Longrightarrow>
     success r \<and> (\<exists>at v. exec qi at q = ProbeValue v \<and> content r = ed_content v
                    \<and> complete r = (ed_complete v \<noteq> Some False))"
proof (induction ats)
  case Nil
  then show ?case by simp
next
  case (Cons at ats)
  show ?case
  proof (cases "exec qi at q")
    case (ProbeValue x)
    show ?thesis
    proof (cases "ed_content x \<noteq> [] \<and> length (ed_content x) > 10")
      case True
      with ProbeValue Cons.prems
      have "success r \<and> exec qi at q = ProbeValue x \<and> content r = ed_content x
              \<and> complete r = (ed_complete x \<noteq> Some False)"
        by auto
      then show ?thesis by blast
    next
      case False
      with ProbeValue Cons show ?thesis by auto
    qed
  qed (use Cons in auto)
qed

lemma try_queries_Some:
  "try_queries exec a n qi qs = Returns (Some r) \<Longrightarrow>
     success r \<and> (\<exists>qi at q v. q \<in> set qs \<and> exec qi at q = ProbeValue v
                    \<and> content r = ed_content v
                    \<and> complete r = (ed_complete v \<noteq> Some False))"
proof (induction qs arbitrary: qi)
  case Nil
  then show ?case by simp
next
  case (Cons q qs)
  show ?case
  proof (cases "try_attempts exec a qi q [0..<n]")
    case Pending
    with Cons.prems show ?thesis by simp
  next
    case (Returns found)
    show ?thesis
    proof (cases found)
      case None
      with Returns Cons.prems have "try_queries exec a n (qi + 1) qs = Returns (Some r)"
        by simp
      from Cons.IH [OF this] show ?thesis by auto
    next
      case (Some r')
      with Returns Cons.prems have "r' = r" by simp
      with Some Returns try_attempts_Some [of exec a qi q "[0..<n]" r]
      show ?thesis by auto
    qed
  qed
qed

lemma extractContent_success:
  assumes "extractContent pages exec a n = Returns (Inr r)" "success r"
  shows "\<exists>qi at q v. q \<in> set (generateExtractionQueries a) \<and> exec qi at q = ProbeValue v
           \<and> content r = ed_content v \<and> complete r = (ed_complete v \<noteq> Some False)"
proof -
  from assms have "try_queries exec a n 0 (generateExtractionQueries a) = Returns (Some r)"
    by (auto simp: extractContent_def all_failed_def split: option.splits async.splits)
  then show ?thesis using try_queries_Some by blast
qed

lemma plain_generated:
  "(case a of None \<Rightarrow> True | Some h \<Rightarrow> plain_literal h) \<Longrightarrow>
     q \<in> set (generateExtractionQueries a) \<Longrightarrow> plain_query q"
  by (auto simp: generateExtractionQueries_def plain_query_def split: option.splits if_splits)

text \<open>
  A successful extraction reports \<open>complete = true\<close> unless the value the probe returned
  carries \<open>complete: false\<close>; the scripts as written return no \<open>complete\<close> field; so
  for an anchor that is a plain literal every successful extraction reports
  \<open>complete = true\<close>, without any completion check having been made.
\<close>

lemma extractContent_complete_if_plain:
  "(extractContent pages exec a n = Returns (Inr r) \<longrightarrow> success r \<longrightarrow>
      (\<exists>qi at q v. exec qi at q = ProbeValue v \<and> content r = ed_content v
         \<and> complete r = (ed_complete v \<noteq> Some False)))
   \<and> (written_script q d = Some v \<longrightarrow> ed_complete v = None)
   \<and> ((case a of None \<Rightarrow> True | Some h \<Rightarrow> plain_literal h) \<longrightarrow>
        extractContent pages (exec_on conn) a n = Returns (Inr r') \<longrightarrow> success r' \<longrightarrow>
        complete r')"
proof (intro conjI impI)
  assume "extractContent pages exec a n = Returns (Inr r)" "success r"
  then show "\<exists>qi at q v. exec qi at q = ProbeValue v \<and> content r = ed_content v
         \<and> complete r = (ed_complete v \<noteq> Some False)"
    using extractContent_success by blast
next
  assume "written_script q d = Some v"
  then show "ed_complete v = None" by (rule written_script_no_complete)
next
  assume pl: "case a of None \<Rightarrow> True | Some h \<Rightarrow> plain_literal h"
    and "extractContent pages (exec_on conn) a n = Returns (Inr r')" "success r'"
  then obtain qi at q v where q: "q \<in> set (generateExtractionQueries a)"
      and v: "exec_on conn qi at q = ProbeValue v"
      and c: "complete r' = (ed_complete v \<noteq> Some False)"
    using extractContent_success by blast
  have "plain_query q" using pl q by (rule plain_generated)
  then have "ed_complete v = None" using v by (rule exec_on_no_complete)
  with c show "complete r'" by simp
qed

text \<open>
  For instance, on a page whose Stop button is still visible the extraction succeeds
  and reports \<open>complete = true\<close>.
\<close>

lemma extract_busy:
  "extractContent (Some [claude_page]) (exec_on (always (chat_page answer True)))
     (Some ''msg_1000_abc123'') 1
   = Returns (Inr \<lparr>success = True, content = answer, complete = True,
          for_anchor = Some ''msg_1000_abc123'', message = None, elapsed = None,
          metadata = Some \<lparr>queryIndex = 0, attempt = 1, messageCount = Some 2,
             selector = None, source = None, elem = None\<rparr>\<rparr>)
   \<and> claudeStillResponding (chat_page answer True)"
  by code_simp

text \<open>
  C9 fails on the code: the anchor is pasted into the script unescaped. For the anchor
  \<^verbatim>\<open>msg_1_x'; return {content: 'AAAAAAAAAAAAAAAA', complete: false}; '\<close>, which is
  not a plain literal, the generated script returns an object that carries
  \<open>complete: false\<close>, and the extraction succeeds with \<open>complete = false\<close>.
\<close>

theorem extractContent_crafted_anchor:
  "plain_literal crafted_anchor = False
   \<and> run_query (AnchorSequential crafted_anchor) injected_page
       = Some (no_content\<lparr>ed_content := ''AAAAAAAAAAAAAAAA'', ed_complete := Some False\<rparr>)
   \<and> extractContent (Some [claude_page]) (exec_on (always injected_page))
        (Some crafted_anchor) 1
       = Returns (Inr \<lparr>success = True, content = ''AAAAAAAAAAAAAAAA'', complete = False,
            for_anchor = Some crafted_anchor, message = None, elapsed = None,
            metadata = Some \<lparr>queryIndex = 0, attempt = 1, messageCount = None,
               selector = None, source = None, elem = None\<rparr>\<rparr>)"
  by code_simp

subsection \<open>The completion checks\<close>

lemma detect_on:
  "detectResponseCompletion pages (executeJavaScript conn completionCheck)
     = (case conn of
          Evaluated d \<Rightarrow> Returns (findClaudePage pages \<noteq> None \<and> \<not> claudeStillResponding d)
        | Unreachable \<Rightarrow> Returns False
        | NoResult \<Rightarrow> Returns False
        | Silent \<Rightarrow> (if findClaudePage pages = None then Returns False else Pending))"
  by (auto simp: detectResponseCompletion_def executeJavaScript_def completionCheck_def Let_def
      split: option.splits transport.splits)

lemma getDOMCompletionState_busy:
  "getDOMCompletionState (Evaluated d) = Returns (Some st) \<Longrightarrow>
     (isResponding st \<and> stop_shown (stopButton st)) = claudeStillResponding d"
  by (auto simp: getDOMCompletionState_def executeJavaScript_def domInspection_def Let_def
      claudeStillResponding_def stop_shown_def element_visible_def split: option.splits)

lemma getDOMCompletionState_Evaluated:
  "\<exists>st. getDOMCompletionState (Evaluated d) = Returns (Some st)"
  by (simp add: getDOMCompletionState_def executeJavaScript_def domInspection_def Let_def)

lemma getDOMCompletionState_failed:
  "getDOMCompletionState Unreachable = Returns None"
  "getDOMCompletionState NoResult = Returns None"
  "getDOMCompletionState Silent = Pending"
  by (simp_all add: getDOMCompletionState_def executeJavaScript_def)

lemma check_on:
  "checkResponseCompletion body c (getDOMCompletionState conn)
     = (case conn of
          Evaluated d \<Rightarrow>
            Returns (20 \<le> length c \<and> rx_test anchorPattern body \<and> 10 < length (trim c)
                     \<and> \<not> claudeStillResponding d)
        | Unreachable \<Rightarrow> Returns False
        | NoResult \<Rightarrow> Returns False
        | Silent \<Rightarrow> (if 20 \<le> length c \<and> rx_test anchorPattern body then Pending
                     else Returns False))"
proof (cases conn)
  case (Evaluated d)
  obtain st where st: "getDOMCompletionState (Evaluated d) = Returns (Some st)"
    using getDOMCompletionState_Evaluated [of d] by auto
  show ?thesis
    using getDOMCompletionState_busy [OF st]
    by (auto simp: Evaluated st checkResponseCompletion_def Let_def)
qed (auto simp: checkResponseCompletion_def getDOMCompletionState_failed)

text \<open>
  C2, amended. \<open>detectResponseCompletion\<close>, the check \<open>monitorForResponse\<close> makes,
  declares completion exactly when a page is found, the probe returns the script's value
  and no Stop button is visible; extracted content is not consulted.
  \<open>checkResponseCompletion\<close> declares completion exactly when the extracted content has
  at least 20 characters, a bridge header occurs in the page text, the DOM state was
  obtained, no Stop button is visible and the trimmed content is longer than 10
  characters. Neither decision depends on the send button. (Neither check returns when
  the probe it awaits never settles.)
\<close>

theorem completion_rule:
  "detectResponseCompletion pages (executeJavaScript conn completionCheck)
     = (case conn of
          Evaluated d \<Rightarrow> Returns (findClaudePage pages \<noteq> None \<and> \<not> claudeStillResponding d)
        | Unreachable \<Rightarrow> Returns False
        | NoResult \<Rightarrow> Returns False
        | Silent \<Rightarrow> (if findClaudePage pages = None then Returns False else Pending))
   \<and> checkResponseCompletion body c (getDOMCompletionState conn)
     = (case conn of
          Evaluated d \<Rightarrow>
            Returns (20 \<le> length c \<and> rx_test anchorPattern body \<and> 10 < length (trim c)
                     \<and> \<not> claudeStillResponding d)
        | Unreachable \<Rightarrow> Returns False
        | NoResult \<Rightarrow> Returns False
        | Silent \<Rightarrow> (if 20 \<le> length c \<and> rx_test anchorPattern body then Pending
                     else Returns False))
   \<and> detectResponseCompletion pages
        (ProbeValue (cd\<lparr>sendButtonFound := f, sendButtonDisabled := g\<rparr>))
     = detectResponseCompletion pages (ProbeValue cd)
   \<and> checkResponseCompletion body c (Returns (Some (st\<lparr>sendButton := sb\<rparr>)))
     = checkResponseCompletion body c (Returns (Some st))"
  using detect_on [of pages conn] check_on [of body c conn]
  by (simp add: detectResponseCompletion_def checkResponseCompletion_def Let_def
      split: option.splits)

text \<open>
  C2, as stated, fails in both directions. \<open>checkResponseCompletion\<close> returns false on a
  page without a bridge header although no Stop button is visible and the content is
  above the threshold; \<open>detectResponseCompletion\<close> returns true on a page without a
  Stop button from which no content can be extracted.
\<close>

theorem completion_rule_counterexample:
  "claudeStillResponding answer_page = False
   \<and> 10 < length (trim answer)
   \<and> checkResponseCompletion (bodyInnerText answer_page) answer
        (getDOMCompletionState (Evaluated answer_page)) = Returns False
   \<and> extractContent (Some [claude_page]) (exec_on (always (chat_page [] False)))
        (Some ''msg_1000_abc123'') 1 = Returns (Inr (all_failed (Some ''msg_1000_abc123'')))
   \<and> detectResponseCompletion (Some [claude_page])
        (executeJavaScript (Evaluated (chat_page [] False)) completionCheck) = Returns True"
  by code_simp

theorem completion_rule_witness:
  "checkResponseCompletion bridge_body answer (getDOMCompletionState (Evaluated answer_page))
     = Returns True
   \<and> checkResponseCompletion bridge_body answer
         (getDOMCompletionState (Evaluated (chat_page answer True))) = Returns False
   \<and> detectResponseCompletion (Some [claude_page])
        (executeJavaScript (Evaluated answer_page) completionCheck) = Returns True
   \<and> detectResponseCompletion (Some [claude_page])
         (executeJavaScript (Evaluated (chat_page answer True)) completionCheck)
     = Returns False"
proof -
  have a: "rx_test anchorPattern bridge_body" by code_simp
  have b: "\<not> claudeStillResponding answer_page" by code_simp
  have c: "claudeStillResponding (chat_page answer True)" by code_simp
  have d: "20 \<le> length answer \<and> 10 < length (trim answer)" by code_simp
  have e: "findClaudePage (Some [claude_page]) \<noteq> None" by code_simp
  show ?thesis
    using a b c d e
      completion_rule [of "Some [claude_page]" "Evaluated answer_page" bridge_body answer]
      completion_rule [of "Some [claude_page]" "Evaluated (chat_page answer True)" bridge_body answer]
    by simp
qed

text \<open>
  C7: when the busy indicator cannot be determined, the completion check returns false,
  whatever content has been extracted: for \<open>detectResponseCompletion\<close> when the probe
  throws or times out, returns no value, returns a value without a boolean
  \<open>complete\<close>, or no page is found; for \<open>checkResponseCompletion\<close> when the DOM
  inspection fails and gives null.
\<close>

theorem completion_conservative:
  "(probed = ProbeError \<or> probed = ProbeNoValue \<longrightarrow>
      detectResponseCompletion pages probed = Returns False)
   \<and> (cd_complete v = None \<longrightarrow> detectResponseCompletion pages (ProbeValue v) = Returns False)
   \<and> (findClaudePage pages' = None \<longrightarrow> detectResponseCompletion pages' probed' = Returns False)
   \<and> (conn = Unreachable \<or> conn = NoResult \<longrightarrow>
        detectResponseCompletion pages (executeJavaScript conn completionCheck) = Returns False
        \<and> checkResponseCompletion body c (getDOMCompletionState conn) = Returns False)
   \<and> checkResponseCompletion body c (Returns None) = Returns False"
  by (auto simp: detectResponseCompletion_def checkResponseCompletion_def
      executeJavaScript_def getDOMCompletionState_failed split: option.splits)

theorem completion_conservative_witness:
  "detectResponseCompletion (Some [claude_page]) ProbeError = Returns False
   \<and> detectResponseCompletion (Some [claude_page]) ProbeNoValue = Returns False
   \<and> detectResponseCompletion (Some [claude_page])
        (executeJavaScript Unreachable completionCheck) = Returns False
   \<and> checkResponseCompletion bridge_body answer (getDOMCompletionState Unreachable)
       = Returns False
   \<and> checkResponseCompletion bridge_body answer (getDOMCompletionState NoResult)
       = Returns False
   \<and> checkResponseCompletion bridge_body answer
        (getDOMCompletionState (Evaluated answer_page)) = Returns True"
proof -
  have t: "checkResponseCompletion bridge_body answer
        (getDOMCompletionState (Evaluated answer_page)) = Returns True"
    by code_simp
  show ?thesis
    using t
      completion_conservative [of ProbeError "Some [claude_page]"]
      completion_conservative [of ProbeNoValue "Some [claude_page]"]
      completion_conservative [of _ "Some [claude_page]" _ _ _ Unreachable bridge_body answer]
      completion_conservative [of _ "Some [claude_page]" _ _ _ NoResult bridge_body answer]
    by simp
qed

section \<open>Properties of the monitor\<close>

subsection \<open>Streaming\<close>

lemma nondecreasing_snoc:
  "nondecreasing (us @ [u]) =
     (nondecreasing us \<and> (\<forall>v \<in> set us. length (content v) \<le> length (content u)))"
  by (auto simp: nondecreasing_def sorted_wrt_append)

lemma bounded_stream_step: "bounded m \<Longrightarrow> bounded (fst (stream_step a cb th r m))"
  by (auto simp: bounded_def stream_step_def emit_def update_of_def nondecreasing_snoc
      list_all_iff split: prod.splits)

lemma bounded_started: "bounded m \<Longrightarrow> bounded (m\<lparr>responseStarted := b\<rparr>)"
  by (simp add: bounded_def)

lemma bounded_final:
  assumes "bounded m" "length (lastContent m) \<le> length c"
  shows "bounded (emit cb (update_of a c True) (m\<lparr>lastContent := c\<rparr>))"
  using assms by (auto simp: bounded_def emit_def update_of_def nondecreasing_snoc list_all_iff)

lemma bounded_run:
  assumes "bounded m"
  shows "bounded (snd (streamMonitor_run a timeout cb start t m))"
proof -
  let ?m1 = "m\<lparr>responseStarted := True\<rparr>"
  have b1: "bounded ?m1" using assms by (rule bounded_started)
  have b2: "bounded m2" if "stream_step a cb th r ?m1 = (m2, threw)" for th r m2 threw
    using bounded_stream_step [OF b1, of a cb th r] that by simp
  have fin: "bounded (emit cb (update_of a (lastContent m3) True) m3)"
    if "bounded m3" for m3
    using bounded_final [of m3 "lastContent m3" cb a] that by simp
  have fin2: "bounded (emit cb (update_of a c True) (m2\<lparr>lastContent := c\<rparr>))"
    if "bounded m2" "length (lastContent m2) < length c" for m2 c
    using bounded_final [of m2 c cb a] that by simp
  show ?thesis
    using assms b1 b2 fin fin2
    by (auto simp: streamMonitor_run_def Let_def
        split: sum.splits prod.splits async.splits bool.splits)
qed


lemma bounded_streamMonitor:
  "bounded m \<Longrightarrow> bounded (snd (streamMonitor a timeout cb start ts m))"
proof (induction ts arbitrary: m)
  case Nil
  then show ?case by simp
next
  case (Cons t ts)
  obtain p m' where run: "streamMonitor_run a timeout cb start t m = (p, m')"
    by (cases "streamMonitor_run a timeout cb start t m")
  have "bounded m'" using bounded_run [OF Cons.prems, of a timeout cb start t] run by simp
  then show ?case using Cons.IH [of m'] run by (cases p) simp_all
qed

lemma final_update_run:
  "streamMonitor_run a timeout True start t m = (Resolved r, m') \<Longrightarrow> complete r \<Longrightarrow>
     emitted m' \<noteq> [] \<and> last (emitted m') = update_of a (content r) True"
  by (auto simp: streamMonitor_run_def Let_def emit_def
      split: sum.splits prod.splits if_splits async.splits bool.splits)

lemma final_update_streamMonitor:
  "streamMonitor a timeout True start ts m = (Resolved r, m') \<Longrightarrow> complete r \<Longrightarrow>
     emitted m' \<noteq> [] \<and> last (emitted m') = update_of a (content r) True"
proof (induction ts arbitrary: m)
  case Nil
  then show ?case by simp
next
  case (Cons t ts)
  obtain p m1 where run: "streamMonitor_run a timeout True start t m = (p, m1)"
    by (cases "streamMonitor_run a timeout True start t m")
  show ?case
  proof (cases p)
    case (Resolved r1)
    with run Cons.prems(1) have "streamMonitor_run a timeout True start t m = (Resolved r, m')"
      by simp
    then show ?thesis using Cons.prems(2) by (rule final_update_run)
  next
    case Rescheduled
    with run Cons.prems(1) have "streamMonitor a timeout True start ts m1 = (Resolved r, m')"
      by simp
    then show ?thesis using Cons.prems(2) by (rule Cons.IH)
  next
    case Stuck
    with run Cons.prems(1) show ?thesis by simp
  qed
qed

lemma bounded_initial:
  "bounded \<lparr>lastContent = [], responseStarted = False, maps = x, emitted = []\<rparr>"
  by (simp add: bounded_def nondecreasing_def)

text \<open>The runs after a list of runs that leaves the next run scheduled.\<close>

lemma streamMonitor_append:
  "fst (streamMonitor a timeout cb start pre m) = Rescheduled \<Longrightarrow>
     streamMonitor a timeout cb start (pre @ rest) m
       = streamMonitor a timeout cb start rest (snd (streamMonitor a timeout cb start pre m))"
proof (induction pre arbitrary: m)
  case Nil
  then show ?case by simp
next
  case (Cons u pre)
  obtain p m1 where run: "streamMonitor_run a timeout cb start u m = (p, m1)"
    by (cases "streamMonitor_run a timeout cb start u m")
  show ?case
  proof (cases p)
    case Rescheduled
    with run Cons.prems have "fst (streamMonitor a timeout cb start pre m1) = Rescheduled"
      by simp
    from Cons.IH [OF this] show ?thesis using run Rescheduled by simp
  qed (use run Cons.prems in simp_all)
qed

lemma completing_run:
  assumes "completing a timeout start m t"
  shows "\<exists>r m'. streamMonitor_run a timeout cb start t m = (Resolved r, m')
           \<and> success r \<and> complete r"
  using assms
  by (auto simp: completing_def gives_result_def streamMonitor_run_def Let_def stream_step_def
      split: sum.splits prod.splits async.splits bool.splits)

text \<open>
  C5, amended: for every anchor and every sequence of runs, whatever the probes return
  and whether or not the callback throws, the updates given to the callback have
  non-decreasing content length. Whenever the monitor resolves as complete, the last
  update given to the callback has \<open>complete = true\<close> and carries the content of the
  result. It resolves as complete in a run before the timeout in which the completion
  check fires, both extractions return a result and the callback does not throw.
\<close>

theorem monitorForResponse_updates:
  "nondecreasing (emitted (snd (monitorForResponse a timeout cb start x ticks)))
   \<and> (cb \<longrightarrow> fst (monitorForResponse a timeout cb start x ticks) = Resolved r \<longrightarrow> complete r \<longrightarrow>
        emitted (snd (monitorForResponse a timeout cb start x ticks)) \<noteq> []
        \<and> complete (last (emitted (snd (monitorForResponse a timeout cb start x ticks))))
        \<and> content (last (emitted (snd (monitorForResponse a timeout cb start x ticks))))
            = content r)
   \<and> (fst (monitorForResponse a timeout cb start x pre) = Rescheduled \<longrightarrow>
        completing a timeout start (snd (monitorForResponse a timeout cb start x pre)) t \<longrightarrow>
        (\<exists>r'. fst (monitorForResponse a timeout cb start x (pre @ t # post)) = Resolved r'
               \<and> success r' \<and> complete r'))"
proof (intro conjI)
  show "nondecreasing (emitted (snd (monitorForResponse a timeout cb start x ticks)))"
    using bounded_streamMonitor [OF bounded_initial, of a timeout cb start ticks x]
    by (simp add: monitorForResponse_def bounded_def)
next
  let ?m' = "snd (monitorForResponse a timeout cb start x ticks)"
  show "cb \<longrightarrow> fst (monitorForResponse a timeout cb start x ticks) = Resolved r \<longrightarrow> complete r \<longrightarrow>
        emitted ?m' \<noteq> [] \<and> complete (last (emitted ?m'))
        \<and> content (last (emitted ?m')) = content r"
  proof (intro impI)
    assume cb and res: "fst (monitorForResponse a timeout cb start x ticks) = Resolved r"
      and cr: "complete r"
    from res \<open>cb\<close> have "streamMonitor a timeout True start ticks
        \<lparr>lastContent = [], responseStarted = False, maps = x, emitted = []\<rparr> = (Resolved r, ?m')"
      by (simp add: monitorForResponse_def prod_eq_iff)
    from final_update_streamMonitor [OF this cr]
    show "emitted ?m' \<noteq> []
          \<and> complete (last (emitted ?m')) \<and> content (last (emitted ?m')) = content r"
      by (simp add: update_of_def)
  qed
next
  let ?init = "\<lparr>lastContent = [], responseStarted = False, maps = x, emitted = []\<rparr>"
  show "fst (monitorForResponse a timeout cb start x pre) = Rescheduled \<longrightarrow>
        completing a timeout start (snd (monitorForResponse a timeout cb start x pre)) t \<longrightarrow>
        (\<exists>r'. fst (monitorForResponse a timeout cb start x (pre @ t # post)) = Resolved r'
               \<and> success r' \<and> complete r')"
  proof (intro impI)
    assume p: "fst (monitorForResponse a timeout cb start x pre) = Rescheduled"
      and c: "completing a timeout start (snd (monitorForResponse a timeout cb start x pre)) t"
    let ?m = "snd (streamMonitor a timeout cb start pre ?init)"
    from p have "fst (streamMonitor a timeout cb start pre ?init) = Rescheduled"
      by (simp add: monitorForResponse_def)
    then have "streamMonitor a timeout cb start (pre @ t # post) ?init
        = streamMonitor a timeout cb start (t # post) ?m"
      by (rule streamMonitor_append)
    moreover obtain r' m' where "streamMonitor_run a timeout cb start t ?m = (Resolved r', m')"
        "success r'" "complete r'"
      using completing_run [of a timeout start ?m t cb] c by (auto simp: monitorForResponse_def)
    ultimately show "\<exists>r'. fst (monitorForResponse a timeout cb start x (pre @ t # post))
        = Resolved r' \<and> success r' \<and> complete r'"
      by (simp add: monitorForResponse_def)
  qed
qed

text \<open>
  C5, as stated, fails: in the run \<open>tick_lost\<close>, one second after the start of a monitor
  with a timeout of sixty seconds, the completion check fires, but the final extraction
  throws; no update with \<open>complete = true\<close> is given to the callback, and the run at
  sixty seconds resolves the monitor with the timeout result.
\<close>

theorem monitorForResponse_final_extraction_throws:
  "detectResponseCompletion (t_completionPages tick_lost) (t_completion tick_lost)
     = Returns True
   \<and> t_now tick_lost - 1000 < (60000::int)
   \<and> extractContent (t_finalPages tick_lost) (t_finalExec tick_lost)
        (Some ''msg_1000_abc123'') 2 = Returns (Inl CouldNotConnect)
   \<and> fst (monitorForResponse ''msg_1000_abc123'' 60000 True 1000 tracked_extractor
        [tick_lost, tick_late])
     = Resolved \<lparr>success = False, content = answer, complete = False,
                 for_anchor = Some ''msg_1000_abc123'',
                 message = Some ''Response monitoring timeout'', elapsed = Some 60000,
                 metadata = None\<rparr>
   \<and> map complete (emitted (snd (monitorForResponse ''msg_1000_abc123'' 60000 True 1000
        tracked_extractor [tick_lost, tick_late]))) = [False]"
  by code_simp

theorem monitorForResponse_updates_witness:
  "fst (monitorForResponse ''msg_1000_abc123'' 60000 True 1000 tracked_extractor [tick1, tick2])
     = Rescheduled
   \<and> completing ''msg_1000_abc123'' 60000 1000
        (snd (monitorForResponse ''msg_1000_abc123'' 60000 True 1000 tracked_extractor
           [tick1, tick2])) tick3
   \<and> fst (monitorForResponse ''msg_1000_abc123'' 60000 True 1000 tracked_extractor
        [tick1, tick2, tick3])
     = Resolved \<lparr>success = True, content = ''Hi there, this is Claude. Done.'',
                 complete = True, for_anchor = Some ''msg_1000_abc123'', message = None,
                 elapsed = Some 3000, metadata = None\<rparr>
   \<and> map content (emitted (snd (monitorForResponse ''msg_1000_abc123'' 60000 True 1000
        tracked_extractor [tick1, tick2, tick3])))
     = [''Hi there, this'', ''Hi there, this is Claude.'', ''Hi there, this is Claude. Done.'',
        ''Hi there, this is Claude. Done.'']
   \<and> map complete (emitted (snd (monitorForResponse ''msg_1000_abc123'' 60000 True 1000
        tracked_extractor [tick1, tick2, tick3])))
     = [False, False, False, True]
   \<and> nondecreasing (emitted (snd (monitorForResponse ''msg_1000_abc123'' 60000 True 1000
        tracked_extractor [tick1, tick2, tick3])))
   \<and> complete (last (emitted (snd (monitorForResponse ''msg_1000_abc123'' 60000 True 1000
        tracked_extractor [tick1, tick2, tick3]))))"
proof -
  let ?run = "monitorForResponse ''msg_1000_abc123'' 60000 True 1000 tracked_extractor
                [tick1, tick2, tick3]"
  let ?r = "\<lparr>success = True, content = ''Hi there, this is Claude. Done.'', complete = True,
             for_anchor = Some ''msg_1000_abc123'', message = None, elapsed = Some 3000,
             metadata = None\<rparr>"
  have p: "fst (monitorForResponse ''msg_1000_abc123'' 60000 True 1000 tracked_extractor
             [tick1, tick2]) = Rescheduled"
    by code_simp
  have g: "completing ''msg_1000_abc123'' 60000 1000
        (snd (monitorForResponse ''msg_1000_abc123'' 60000 True 1000 tracked_extractor
           [tick1, tick2])) tick3"
    by code_simp
  have r: "fst ?run = Resolved ?r" by code_simp
  have c: "map content (emitted (snd ?run))
     = [''Hi there, this'', ''Hi there, this is Claude.'', ''Hi there, this is Claude. Done.'',
        ''Hi there, this is Claude. Done.'']"
    by code_simp
  have d: "map complete (emitted (snd ?run)) = [False, False, False, True]" by code_simp
  show ?thesis
    using p g r c d
      monitorForResponse_updates [of "''msg_1000_abc123''" 60000 True 1000 tracked_extractor
        "[tick1, tick2, tick3]" ?r "[tick1, tick2]" tick3 "[]"]
    by simp
qed

subsection \<open>Timeout\<close>

lemma waiting_run:
  "waiting a timeout start u \<Longrightarrow> fst (streamMonitor_run a timeout cb start u m) = Rescheduled"
  by (auto simp: waiting_def streamMonitor_run_def Let_def
      split: sum.splits prod.splits async.splits bool.splits)

lemma waiting_streamMonitor:
  "list_all (waiting a timeout start) pre \<Longrightarrow>
     fst (streamMonitor a timeout cb start pre m) = Rescheduled"
proof (induction pre arbitrary: m)
  case Nil
  then show ?case by simp
next
  case (Cons u pre)
  obtain p m1 where run: "streamMonitor_run a timeout cb start u m = (p, m1)"
    by (cases "streamMonitor_run a timeout cb start u m")
  with waiting_run [of a timeout start u cb m] Cons.prems have "p = Rescheduled" by simp
  with run Cons show ?case by simp
qed

lemma synced_emit: "synced (emit True u m) = (lastContent m = content u)"
  by (cases "emitted m") (simp_all add: synced_def emit_def)

lemma synced_maps: "synced (m\<lparr>maps := x\<rparr>) = synced m"
  by (simp add: synced_def split: list.splits)

lemma synced_started: "synced (m\<lparr>responseStarted := b\<rparr>) = synced m"
  by (simp add: synced_def split: list.splits)

lemma synced_stream_step: "synced m \<Longrightarrow> synced (fst (stream_step a True th r m))"
  by (auto simp: stream_step_def synced_emit synced_maps update_of_def split: prod.splits)

lemma synced_run:
  assumes "synced m"
  shows "synced (snd (streamMonitor_run a timeout True start t m))"
proof -
  let ?m1 = "m\<lparr>responseStarted := True\<rparr>"
  have s1: "synced ?m1" using assms by (simp add: synced_started)
  have fin: "synced (emit True (update_of a (lastContent m3) True) m3)" for m3
    by (simp add: synced_emit update_of_def)
  have fin2: "synced (emit True (update_of a c True) (m2\<lparr>lastContent := c\<rparr>))" for m2 c
    by (simp add: synced_emit update_of_def)
  have s2: "synced m2" if "stream_step a True th r ?m1 = (m2, threw)" for th r m2 threw
    using synced_stream_step [OF s1, of a th r] that by simp
  show ?thesis
    using assms s1 s2 fin fin2
    by (auto simp: streamMonitor_run_def Let_def
        split: sum.splits prod.splits async.splits bool.splits)
qed

lemma synced_streamMonitor:
  "synced m \<Longrightarrow> synced (snd (streamMonitor a timeout True start ts m))"
proof (induction ts arbitrary: m)
  case Nil
  then show ?case by simp
next
  case (Cons t ts)
  obtain p m' where run: "streamMonitor_run a timeout True start t m = (p, m')"
    by (cases "streamMonitor_run a timeout True start t m")
  have "synced m'" using synced_run [OF Cons.prems, of a timeout start t] run by simp
  then show ?case using Cons.IH [of m'] run by (cases p) simp_all
qed

text \<open>
  When the calls awaited return: if, at every run before the one that finds the timeout
  reached, the clock is within the timeout, the extraction returns or throws and the
  completion check returns false, then \<open>monitorForResponse\<close> resolves with
  \<open>success = false\<close>, \<open>complete = false\<close> and, as content, the \<open>lastContent\<close> gathered
  by the runs before, which with a callback is the content of the last update given to
  it (empty when there was none).
\<close>

lemma monitorForResponse_timeout_when_calls_return:
  assumes "list_all (waiting a timeout start) pre" and "timeout \<le> t_now t - start"
  shows "fst (monitorForResponse a timeout cb start x (pre @ t # post))
           = Resolved \<lparr>success = False,
                    content = lastContent (snd (monitorForResponse a timeout cb start x pre)),
                    complete = False, for_anchor = Some a,
                    message = Some ''Response monitoring timeout'',
                    elapsed = Some (t_now t - start), metadata = None\<rparr>
         \<and> snd (monitorForResponse a timeout cb start x (pre @ t # post))
             = snd (monitorForResponse a timeout cb start x pre)
         \<and> (cb \<longrightarrow> synced (snd (monitorForResponse a timeout cb start x pre)))"
proof -
  let ?init = "\<lparr>lastContent = [], responseStarted = False, maps = x, emitted = []\<rparr>"
  have "synced ?init" by (simp add: synced_def)
  then have s: "synced (snd (streamMonitor a timeout True start pre ?init))"
    by (rule synced_streamMonitor)
  have "streamMonitor a timeout cb start (pre @ t # post) ?init
          = streamMonitor a timeout cb start (t # post)
              (snd (streamMonitor a timeout cb start pre ?init))"
    using waiting_streamMonitor [OF assms(1)] by (rule streamMonitor_append)
  then show ?thesis
    using assms(2) s
    by (auto simp: monitorForResponse_def streamMonitor_run_def Let_def)
qed

lemma timeout_example:
  "list_all (waiting ''msg_1000_abc123'' 3000 1000) [tick1, tick2]
   \<and> fst (monitorForResponse ''msg_1000_abc123'' 3000 True 1000 tracked_extractor
        [tick1, tick2, tick3])
       = Resolved \<lparr>success = False, content = ''Hi there, this is Claude.'', complete = False,
                for_anchor = Some ''msg_1000_abc123'',
                message = Some ''Response monitoring timeout'', elapsed = Some 3000,
                metadata = None\<rparr>"
  by code_simp

text \<open>A run that awaits a call that never returns leaves the promise pending for ever,
  whatever runs would follow.\<close>

lemma streamMonitor_stuck:
  "fst (streamMonitor_run a timeout cb start t m) = Stuck \<Longrightarrow>
     fst (streamMonitor a timeout cb start (t # ts) m) = Stuck"
  by (cases "streamMonitor_run a timeout cb start t m") simp

text \<open>
  C6 fails on the code: when the socket of a probe closes without an answer, the promise
  of \<open>executeJavaScript\<close> never settles (its timer is cleared on \<open>close\<close> and nothing
  resolves or rejects it). The run \<open>tick_silent\<close> then awaits \<open>extractContent\<close> for
  ever and schedules no further run, so the run at sixty seconds, which would find the
  timeout reached, never happens and the monitor never resolves, although the
  completion check never fired.
\<close>

theorem monitorForResponse_silent_socket:
  "extractContent (t_pages tick_silent) (t_exec tick_silent) (Some ''msg_1000_abc123'') 1
     = Pending
   \<and> (60000::int) \<le> t_now tick_late - 1000
   \<and> fst (monitorForResponse ''msg_1000_abc123'' 60000 True 1000 tracked_extractor
        [tick_silent, tick_late]) = Stuck
   \<and> emitted (snd (monitorForResponse ''msg_1000_abc123'' 60000 True 1000 tracked_extractor
        [tick_silent, tick_late])) = []"
  by code_simp

section \<open>Single flight\<close>

lemma streamResponse_begin_never_rejects:
  "initialized s \<Longrightarrow>
     streamResponse_begin a True now s
       = Inr (s\<lparr>activeExtractions := AList.update a now (activeExtractions s),
                monitors := monitors s @ [a]\<rparr>)"
  by (simp add: streamResponse_begin_def)

text \<open>The sibling path does refuse a second start for an anchor it is monitoring.\<close>

lemma startProactiveMonitoring_again:
  "startProactiveMonitoring a (startProactiveMonitoring a s) = startProactiveMonitoring a s"
  by (simp add: startProactiveMonitoring_def split: option.splits)

text \<open>
  C3 fails on the code: a second \<open>streamResponse\<close> for an anchor whose first call has
  not resolved is neither rejected nor attached; it overwrites the entry of
  \<open>activeExtractions\<close> and starts a second chain of monitor runs for the same anchor.
\<close>

theorem streamResponse_twice_two_monitors:
  "stream_twice =
     Inr \<lparr>initialized = True, activeExtractions = [(''msg_1000_abc123'', 2000)],
          monitors = [''msg_1000_abc123'', ''msg_1000_abc123'']\<rparr>"
  by (simp add: stream_twice_def stream_once_def streamResponse_begin_def
      initialized_service_def new_MessageService_def)

end
